theory Spec2Isabelle
  imports Complex_Main
begin

section \<open>Expense tracker: recurrence sweep and budget overview of app.js\<close>

text \<open>
  The development embeds the ledger logic of \<^verbatim>\<open>src/app.js\<close>: \<^verbatim>\<open>computeNextDate\<close>,
  \<^verbatim>\<open>migrateRecurring\<close>, \<^verbatim>\<open>addExpense\<close>, \<^verbatim>\<open>setBudget\<close>, \<^verbatim>\<open>updateBudgetOverview\<close>,
  \<^verbatim>\<open>migrateOldData\<close> and the order in which the script calls them on page load.
  The DOM, the chart library and the text of the HTML are left out; what the code
  writes to \<^verbatim>\<open>localStorage\<close>, the notifications it creates, the rows of the expense table
  and the items of the budget overview that it renders, the alerts it raises and the page
  reload are kept as a trace of effects.
\<close>

subsection \<open>JavaScript numbers\<close>

text \<open>
  A JavaScript number is modelled as an exact real, the two infinities or NaN. Rounding
  to binary64 is not modelled, and negative zero is identified with zero (the
  application never stores it: \<^verbatim>\<open>JSON.stringify(-0)\<close> is \<^verbatim>\<open>"0"\<close>). The model
  computes what the code computes where every intermediate result is a binary64 number,
  as with the small whole amounts and ceilings of the examples below, and where only a
  division by zero or the sign of a sum of positive amounts matters. Where rounding
  decides a comparison the two can differ: \<^verbatim>\<open>(0.99 / 1.1) * 100\<close> is
  \<^verbatim>\<open>89.99999999999999\<close> in binary64 and 90 here.
\<close>

datatype jsnum = Fin real | PosInf | NegInf | NaN

fun js_add :: "jsnum \<Rightarrow> jsnum \<Rightarrow> jsnum" where
  "js_add NaN _ = NaN"
| "js_add _ NaN = NaN"
| "js_add (Fin a) (Fin b) = Fin (a + b)"
| "js_add PosInf NegInf = NaN"
| "js_add NegInf PosInf = NaN"
| "js_add PosInf _ = PosInf"
| "js_add _ PosInf = PosInf"
| "js_add NegInf _ = NegInf"
| "js_add _ NegInf = NegInf"

fun js_neg :: "jsnum \<Rightarrow> jsnum" where
  "js_neg (Fin a) = Fin (- a)"
| "js_neg PosInf = NegInf"
| "js_neg NegInf = PosInf"
| "js_neg NaN = NaN"

definition js_sub :: "jsnum \<Rightarrow> jsnum \<Rightarrow> jsnum" where
  "js_sub a b = js_add a (js_neg b)"

text \<open>The sign of an infinity after it is multiplied or divided by a finite number.\<close>

definition signed_inf :: "bool \<Rightarrow> jsnum" where
  "signed_inf positive = (if positive then PosInf else NegInf)"

fun js_mul :: "jsnum \<Rightarrow> jsnum \<Rightarrow> jsnum" where
  "js_mul NaN _ = NaN"
| "js_mul _ NaN = NaN"
| "js_mul (Fin a) (Fin b) = Fin (a * b)"
| "js_mul (Fin a) PosInf = (if a = 0 then NaN else signed_inf (0 < a))"
| "js_mul (Fin a) NegInf = (if a = 0 then NaN else signed_inf (a < 0))"
| "js_mul PosInf (Fin b) = (if b = 0 then NaN else signed_inf (0 < b))"
| "js_mul NegInf (Fin b) = (if b = 0 then NaN else signed_inf (b < 0))"
| "js_mul PosInf PosInf = PosInf"
| "js_mul NegInf NegInf = PosInf"
| "js_mul PosInf NegInf = NegInf"
| "js_mul NegInf PosInf = NegInf"

fun js_div :: "jsnum \<Rightarrow> jsnum \<Rightarrow> jsnum" where
  "js_div NaN _ = NaN"
| "js_div _ NaN = NaN"
| "js_div (Fin a) (Fin b) =
     (if b \<noteq> 0 then Fin (a / b) else if a = 0 then NaN else signed_inf (0 < a))"
| "js_div (Fin a) PosInf = Fin 0"
| "js_div (Fin a) NegInf = Fin 0"
| "js_div PosInf (Fin b) = signed_inf (0 \<le> b)"
| "js_div NegInf (Fin b) = signed_inf (b < 0)"
| "js_div PosInf PosInf = NaN"
| "js_div PosInf NegInf = NaN"
| "js_div NegInf PosInf = NaN"
| "js_div NegInf NegInf = NaN"

text \<open>The comparisons \<^verbatim>\<open>a >= b\<close> and \<^verbatim>\<open>a > b\<close>: false as soon as one side is NaN.\<close>

fun js_ge :: "jsnum \<Rightarrow> jsnum \<Rightarrow> bool" where
  "js_ge NaN _ = False"
| "js_ge _ NaN = False"
| "js_ge (Fin a) (Fin b) = (b \<le> a)"
| "js_ge PosInf _ = True"
| "js_ge _ NegInf = True"
| "js_ge _ _ = False"

fun js_gt :: "jsnum \<Rightarrow> jsnum \<Rightarrow> bool" where
  "js_gt NaN _ = False"
| "js_gt _ NaN = False"
| "js_gt (Fin a) (Fin b) = (b < a)"
| "js_gt PosInf PosInf = False"
| "js_gt PosInf _ = True"
| "js_gt NegInf _ = False"
| "js_gt (Fin a) NegInf = True"
| "js_gt (Fin a) PosInf = False"

text \<open>\<^verbatim>\<open>Math.min(a, b)\<close>.\<close>

fun Math_min :: "jsnum \<Rightarrow> jsnum \<Rightarrow> jsnum" where
  "Math_min NaN _ = NaN"
| "Math_min _ NaN = NaN"
| "Math_min a b = (if js_ge a b then b else a)"

text \<open>Truthiness of a number: \<^verbatim>\<open>0\<close> and \<^verbatim>\<open>NaN\<close> are falsy.\<close>

fun truthy :: "jsnum \<Rightarrow> bool" where
  "truthy (Fin a) = (a \<noteq> 0)"
| "truthy NaN = False"
| "truthy _ = True"

subsection \<open>The Date library, after the ECMAScript specification\<close>

text \<open>
  The code takes its date arithmetic from the built-in \<^verbatim>\<open>Date\<close>; the definitions
  below follow the abstract operations of ECMA-262 (section "Date Objects") under their
  names there. A time value is a number of milliseconds since 1970-01-01T00:00:00Z, or
  NaN (here \<open>None\<close>) for an invalid date.
\<close>

type_synonym timevalue = "int option"

definition msPerDay :: int where
  "msPerDay = 86400000"

definition Day :: "int \<Rightarrow> int" where
  "Day t = t div msPerDay"

definition TimeWithinDay :: "int \<Rightarrow> int" where
  "TimeWithinDay t = t mod msPerDay"

definition DaysInYear :: "int \<Rightarrow> int" where
  "DaysInYear y =
     (if y mod 4 \<noteq> 0 then 365 else if y mod 100 \<noteq> 0 then 366
      else if y mod 400 \<noteq> 0 then 365 else 366)"

definition DayFromYear :: "int \<Rightarrow> int" where
  "DayFromYear y =
     365 * (y - 1970) + (y - 1969) div 4 - (y - 1901) div 100 + (y - 1601) div 400"

text \<open>
  ECMA-262 defines \<^verbatim>\<open>YearFromTime(t)\<close> as the largest \<open>y\<close> with
  \<^verbatim>\<open>TimeFromYear(y) <= t\<close>. The executable form estimates the year from the mean
  length of a Gregorian year and corrects the estimate by one; lemma
  \<open>YearFromDay_unique\<close> below shows that it is that largest year.
\<close>

definition YearFromDay :: "int \<Rightarrow> int" where
  "YearFromDay d =
     (let y = 1970 + (400 * d) div 146097 in
      if d < DayFromYear y then y - 1
      else if DayFromYear (y + 1) \<le> d then y + 1
      else y)"

definition YearFromTime :: "int \<Rightarrow> int" where
  "YearFromTime t = YearFromDay (Day t)"

definition InLeapYear :: "int \<Rightarrow> int" where
  "InLeapYear t = (if DaysInYear (YearFromTime t) = 366 then 1 else 0)"

definition DayWithinYear :: "int \<Rightarrow> int" where
  "DayWithinYear t = Day t - DayFromYear (YearFromTime t)"

text \<open>
  The day of the year on which month \<open>m\<close> (0 for January) starts, \<open>leap\<close> being 1
  in a leap year and 0 otherwise: the bounds of the table of \<^verbatim>\<open>MonthFromTime\<close>.
\<close>

definition MonthStart :: "int \<Rightarrow> int \<Rightarrow> int" where
  "MonthStart leap m =
     (if m = 0 then 0 else if m = 1 then 31 else if m = 2 then 59 + leap
      else if m = 3 then 90 + leap else if m = 4 then 120 + leap
      else if m = 5 then 151 + leap else if m = 6 then 181 + leap
      else if m = 7 then 212 + leap else if m = 8 then 243 + leap
      else if m = 9 then 273 + leap else if m = 10 then 304 + leap
      else if m = 11 then 334 + leap else 365 + leap)"

definition MonthFromDay :: "int \<Rightarrow> int \<Rightarrow> int" where
  "MonthFromDay leap d =
     (if d < 31 then 0 else if d < 59 + leap then 1 else if d < 90 + leap then 2
      else if d < 120 + leap then 3 else if d < 151 + leap then 4
      else if d < 181 + leap then 5 else if d < 212 + leap then 6
      else if d < 243 + leap then 7 else if d < 273 + leap then 8
      else if d < 304 + leap then 9 else if d < 334 + leap then 10 else 11)"

definition MonthFromTime :: "int \<Rightarrow> int" where
  "MonthFromTime t = MonthFromDay (InLeapYear t) (DayWithinYear t)"

definition DateFromTime :: "int \<Rightarrow> int" where
  "DateFromTime t = DayWithinYear t - MonthStart (InLeapYear t) (MonthFromTime t) + 1"

definition HourFromTime :: "int \<Rightarrow> int" where
  "HourFromTime t = (t div 3600000) mod 24"

definition MinFromTime :: "int \<Rightarrow> int" where
  "MinFromTime t = (t div 60000) mod 60"

definition SecFromTime :: "int \<Rightarrow> int" where
  "SecFromTime t = (t div 1000) mod 60"

definition msFromTime :: "int \<Rightarrow> int" where
  "msFromTime t = t mod 1000"

text \<open>
  \<^verbatim>\<open>MakeDay(year, month, date)\<close>: the day number of the first day of the month
  (months beyond December carry into the year), plus \<open>date - 1\<close>; a date beyond the
  end of the month rolls over into the following month.
\<close>

definition MakeDay :: "int \<Rightarrow> int \<Rightarrow> int \<Rightarrow> int" where
  "MakeDay year month dt =
     (let ym = year + month div 12;
          mn = month mod 12
      in DayFromYear ym + MonthStart (if DaysInYear ym = 366 then 1 else 0) mn + dt - 1)"

definition MakeDate :: "int \<Rightarrow> int \<Rightarrow> int" where
  "MakeDate day time = day * msPerDay + time"

definition TimeClip :: "int \<Rightarrow> timevalue" where
  "TimeClip t = (if 8640000000000000 < \<bar>t\<bar> then None else Some t)"

text \<open>
  The time zone of the host is the abstract operation \<^verbatim>\<open>LocalTZA(t, isUTC)\<close>: the
  offset of local time from UTC in milliseconds, at the UTC instant \<open>t\<close> when
  \<open>isUTC\<close> holds and at the local wall-clock time \<open>t\<close> otherwise. It is a parameter
  of everything that reads or sets local date fields.
\<close>

type_synonym tz = "int \<Rightarrow> bool \<Rightarrow> int"

definition LocalTime :: "tz \<Rightarrow> int \<Rightarrow> int" where
  "LocalTime LocalTZA t = t + LocalTZA t True"

definition UTC :: "tz \<Rightarrow> int \<Rightarrow> int" where
  "UTC LocalTZA t = t - LocalTZA t False"

text \<open>A host on UTC, and one on New York time with its two transitions of 2024.\<close>

definition tz_UTC :: tz where
  "tz_UTC t isUTC = 0"

definition tz_New_York :: tz where
  "tz_New_York t isUTC =
     (if isUTC then (if 1710054000000 \<le> t \<and> t < 1730613600000 then - 14400000 else - 18000000)
      else (if 1710039600000 \<le> t \<and> t < 1730599200000 then - 14400000 else - 18000000))"

subsection \<open>Date strings\<close>

datatype error = RangeError | TypeError

text \<open>The decimal digit \<open>d\<close> as a character, and the digit that a character stands for.\<close>

definition digit_char :: "int \<Rightarrow> char" where
  "digit_char d = ''0123456789'' ! nat d"

definition digit_value :: "char \<Rightarrow> int option" where
  "digit_value c =
     (let code = (of_char c :: nat)
      in if 48 \<le> code \<and> code \<le> 57 then Some (int code - 48) else None)"

definition pad2 :: "int \<Rightarrow> string" where
  "pad2 n = [digit_char (n div 10 mod 10), digit_char (n mod 10)]"

definition pad3 :: "int \<Rightarrow> string" where
  "pad3 n = digit_char (n div 100 mod 10) # pad2 n"

definition pad4 :: "int \<Rightarrow> string" where
  "pad4 n = digit_char (n div 1000 mod 10) # pad3 n"

definition pad6 :: "int \<Rightarrow> string" where
  "pad6 n = digit_char (n div 100000 mod 10) # digit_char (n div 10000 mod 10) # pad4 n"

text \<open>
  \<^verbatim>\<open>toISOString()\<close>: \<^verbatim>\<open>YYYY-MM-DDTHH:mm:ss.sssZ\<close> in UTC, the year with a sign and
  six digits outside 0 to 9999; a \<^verbatim>\<open>RangeError\<close> on an invalid date.
\<close>

definition iso_year :: "int \<Rightarrow> string" where
  "iso_year y =
     (if 0 \<le> y \<and> y \<le> 9999 then pad4 y
      else (if y < 0 then CHR ''-'' else CHR ''+'') # pad6 \<bar>y\<bar>)"

definition iso_string :: "int \<Rightarrow> string" where
  "iso_string t =
     iso_year (YearFromTime t) @ ''-'' @ pad2 (MonthFromTime t + 1) @ ''-''
       @ pad2 (DateFromTime t) @ ''T'' @ pad2 (HourFromTime t) @ '':''
       @ pad2 (MinFromTime t) @ '':'' @ pad2 (SecFromTime t) @ ''.''
       @ pad3 (msFromTime t) @ ''Z''"

definition toISOString :: "timevalue \<Rightarrow> error + string" where
  "toISOString tv = (case tv of None \<Rightarrow> Inl RangeError | Some t \<Rightarrow> Inr (iso_string t))"

text \<open>\<^verbatim>\<open>s.substr(0, 10)\<close>.\<close>

definition substr_0_10 :: "string \<Rightarrow> string" where
  "substr_0_10 s = take 10 s"

fun digits_value :: "int \<Rightarrow> string \<Rightarrow> int option" where
  "digits_value acc [] = Some acc"
| "digits_value acc (c # cs) =
     (case digit_value c of None \<Rightarrow> None | Some d \<Rightarrow> digits_value (10 * acc + d) cs)"

definition DaysInMonth :: "int \<Rightarrow> int \<Rightarrow> int" where
  "DaysInMonth y m =
     (let leap = (if DaysInYear y = 366 then 1 else 0)
      in MonthStart leap (m + 1) - MonthStart leap m)"

text \<open>
  \<^verbatim>\<open>new Date(s)\<close> for a string: the date-only form \<^verbatim>\<open>YYYY-MM-DD\<close> of the ECMAScript
  date-time string format, read as midnight UTC. This is the form that a date input
  field and \<^verbatim>\<open>toISOString().substr(0,10)\<close> produce for the years 0000 to 9999, and
  so the only form of date that the application writes. Every other string is modelled
  as an invalid date, and so is a day past the end of its month, such as
  \<^verbatim>\<open>2023-02-29\<close>: what an engine makes of these is implementation-defined, and some
  engines accept further forms or roll such a day over into the next month.
\<close>

definition Date_parse :: "string \<Rightarrow> timevalue" where
  "Date_parse s =
     (if length s = 10 \<and> s ! 4 = CHR ''-'' \<and> s ! 7 = CHR ''-'' then
        (case (digits_value 0 (take 4 s), digits_value 0 (take 2 (drop 5 s)),
               digits_value 0 (drop 8 s)) of
           (Some y, Some m, Some d) \<Rightarrow>
             if 1 \<le> m \<and> m \<le> 12 \<and> 1 \<le> d \<and> d \<le> DaysInMonth y (m - 1)
             then TimeClip (MakeDate (MakeDay y (m - 1) d) 0)
             else None
         | _ \<Rightarrow> None)
      else None)"

text \<open>
  Comparison of strings with \<^verbatim>\<open><=\<close>: code unit by code unit, a proper prefix being
  smaller.
\<close>

fun str_le :: "string \<Rightarrow> string \<Rightarrow> bool" where
  "str_le [] t = True"
| "str_le (c # s) [] = False"
| "str_le (c # s) (d # t) =
     (if (of_char c :: nat) < of_char d then True
      else if (of_char c :: nat) = of_char d then str_le s t
      else False)"

subsection \<open>Date objects\<close>

text \<open>
  Date objects are mutable: \<^verbatim>\<open>setDate\<close> and \<^verbatim>\<open>setMonth\<close> change the object they are
  called on. The heap of Date objects is a list of time values, an object's address
  being its index.
\<close>

type_synonym heap = "timevalue list"

definition new_Date :: "heap \<Rightarrow> timevalue \<Rightarrow> heap \<times> nat" where
  "new_Date h tv = (h @ [tv], length h)"

definition getDate :: "tz \<Rightarrow> heap \<Rightarrow> nat \<Rightarrow> int option" where
  "getDate LocalTZA h a = map_option (\<lambda>t. DateFromTime (LocalTime LocalTZA t)) (h ! a)"

definition getMonth :: "tz \<Rightarrow> heap \<Rightarrow> nat \<Rightarrow> int option" where
  "getMonth LocalTZA h a = map_option (\<lambda>t. MonthFromTime (LocalTime LocalTZA t)) (h ! a)"

definition getFullYear :: "tz \<Rightarrow> heap \<Rightarrow> nat \<Rightarrow> int option" where
  "getFullYear LocalTZA h a = map_option (\<lambda>t. YearFromTime (LocalTime LocalTZA t)) (h ! a)"

definition setDate :: "tz \<Rightarrow> heap \<Rightarrow> nat \<Rightarrow> int option \<Rightarrow> heap" where
  "setDate LocalTZA h a date =
     h[a := (case (h ! a, date) of
               (Some tv, Some dt) \<Rightarrow>
                 (let t = LocalTime LocalTZA tv;
                      newDate = MakeDate (MakeDay (YearFromTime t) (MonthFromTime t) dt)
                                  (TimeWithinDay t)
                  in TimeClip (UTC LocalTZA newDate))
             | _ \<Rightarrow> None)]"

definition setMonth :: "tz \<Rightarrow> heap \<Rightarrow> nat \<Rightarrow> int option \<Rightarrow> heap" where
  "setMonth LocalTZA h a month =
     h[a := (case (h ! a, month) of
               (Some tv, Some m) \<Rightarrow>
                 (let t = LocalTime LocalTZA tv;
                      newDate = MakeDate (MakeDay (YearFromTime t) m (DateFromTime t))
                                  (TimeWithinDay t)
                  in TimeClip (UTC LocalTZA newDate))
             | _ \<Rightarrow> None)]"

text \<open>
  \<^verbatim>\<open>computeNextDate(dateObj, frequency)\<close> (app.js, lines 729 to 739). The frequency is
  a string or \<^verbatim>\<open>null\<close> (\<open>None\<close>). The result is the heap after the call and the
  address of the returned object \<^verbatim>\<open>next\<close>.
\<close>

definition computeNextDate :: "tz \<Rightarrow> heap \<Rightarrow> nat \<Rightarrow> string option \<Rightarrow> heap \<times> nat" where
  "computeNextDate LocalTZA h dateObj frequency =
     (let (h1, next) = new_Date h (h ! dateObj) in
      if frequency = Some ''daily'' then
        (setDate LocalTZA h1 next (map_option (\<lambda>d. d + 1) (getDate LocalTZA h1 next)), next)
      else if frequency = Some ''weekly'' then
        (setDate LocalTZA h1 next (map_option (\<lambda>d. d + 7) (getDate LocalTZA h1 next)), next)
      else if frequency = Some ''monthly'' then
        (setMonth LocalTZA h1 next (map_option (\<lambda>m. m + 1) (getMonth LocalTZA h1 next)), next)
      else (h1, next))"

text \<open>
  The expression
  \<^verbatim>\<open>computeNextDate(new Date(s), frequency).toISOString().substr(0,10)\<close>
  of \<^verbatim>\<open>migrateRecurring\<close> and \<^verbatim>\<open>addExpense\<close>; both Date objects are temporaries.
\<close>

definition next_date_string :: "tz \<Rightarrow> string \<Rightarrow> string option \<Rightarrow> error + string" where
  "next_date_string LocalTZA s frequency =
     (let (h0, dateObj) = new_Date [] (Date_parse s);
          (h1, next) = computeNextDate LocalTZA h0 dateObj frequency
      in case toISOString (h1 ! next) of
           Inl e \<Rightarrow> Inl e
         | Inr str \<Rightarrow> Inr (substr_0_10 str))"

subsection \<open>The ledger\<close>

text \<open>
  An expense record is a JavaScript object read from \<^verbatim>\<open>localStorage\<close> or built by
  \<^verbatim>\<open>addExpense\<close>, \<^verbatim>\<open>migrateRecurring\<close> or \<^verbatim>\<open>migrateOldData\<close>.

  \<^item> \<open>category\<close>, \<open>subcategory\<close>, \<open>paymentType\<close> and \<open>type'\<close> are \<open>None\<close> when the
    object has no such property (a legacy record has no \<^verbatim>\<open>category\<close>, a current one no
    \<^verbatim>\<open>type\<close>) and otherwise hold the string stored there. The code never writes
    \<^verbatim>\<open>null\<close> or another value into these properties, and a record that holds one is
    outside the model; \<open>category e = None\<close> is therefore
    \<^verbatim>\<open>!e.hasOwnProperty('category')\<close>.
  \<^item> \<open>frequency\<close> and \<open>nextDate\<close> are \<open>None\<close> for \<^verbatim>\<open>null\<close>, which is what
    \<^verbatim>\<open>addExpense\<close> stores in a record that does not recur, and for a missing property;
    the code treats the two alike (it tests truthiness and compares with strings).
  \<^item> A missing \<^verbatim>\<open>recurring\<close> is \<open>False\<close>: the code only tests its truthiness.
  \<^item> \<open>amount\<close> is a number, which is what \<^verbatim>\<open>addExpense\<close> and \<^verbatim>\<open>migrateOldData\<close>
    store (both through \<^verbatim>\<open>parseFloat\<close>). A record whose stored amount is a string or
    another value that is not a number is outside the model: \<^verbatim>\<open>amount.toFixed(2)\<close>
    raises a \<^verbatim>\<open>TypeError\<close> on it wherever the record is rendered.
  \<^item> Identifiers are integers.
\<close>

record expense =
  category :: "string option"
  subcategory :: "string option"
  paymentType :: "string option"
  type' :: "string option"
  name :: string
  date :: string
  amount :: jsnum
  recurring :: bool
  frequency :: "string option"
  nextDate :: "string option"
  id' :: int

text \<open>
  The body of the reminder is the template
  \<^verbatim>\<open>`${exp.name}: $${exp.amount.toFixed(2)} is due today.`\<close>; its two holes are kept as
  they are, the amount unformatted.
\<close>

datatype fragment = Text string | Fixed2 jsnum

record notification =
  title :: string
  body :: "fragment list"

record budget_item =
  item_category :: string
  budgetAmount :: jsnum
  spent :: jsnum
  remaining :: jsnum
  percentage :: jsnum
  statusClass :: string
  budget_alert :: bool

text \<open>
  What the code does to the world outside the ledger, in the order in which it does it:
  \<^verbatim>\<open>new Notification(...)\<close>, \<^verbatim>\<open>localStorage.setItem("expenses", ...)\<close>,
  \<^verbatim>\<open>localStorage.setItem("budgets", ...)\<close>, the expense table written to the page (the
  records that make its rows), the budget overview written to the page, \<^verbatim>\<open>alert(...)\<close>
  and \<^verbatim>\<open>window.location.reload()\<close>.
\<close>

datatype effect =
    Notify notification
  | SetItem_expenses "expense list"
  | SetItem_budgets "(string \<times> jsnum) list"
  | ShowExpenses "expense list"
  | BudgetOverview "budget_item list"
  | Alert "fragment list"
  | Reload

text \<open>
  The state of the page: the global array \<^verbatim>\<open>expenses\<close>, the global object
  \<^verbatim>\<open>budgets\<close> (its keys in insertion order) and the effects so far.
\<close>

record app =
  expenses :: "expense list"
  budgets :: "(string \<times> jsnum) list"
  effects :: "effect list"

subsection \<open>The recurrence sweep\<close>

text \<open>
  The test of line 112:
  \<^verbatim>\<open>exp.recurring && exp.nextDate && exp.nextDate <= today\<close>.
  A \<^verbatim>\<open>null\<close> and an empty string are falsy.
\<close>

definition due :: "string \<Rightarrow> expense \<Rightarrow> bool" where
  "due today exp' =
     (recurring exp' \<and>
      (case nextDate exp' of None \<Rightarrow> False | Some nd \<Rightarrow> nd \<noteq> [] \<and> str_le nd today))"

text \<open>
  The object of lines 115 to 117:
  \<^verbatim>\<open>new Notification('Expense Reminder', { body: ... })\<close>.
\<close>

definition reminder :: "expense \<Rightarrow> notification" where
  "reminder exp' =
     \<lparr>title = ''Expense Reminder'',
      body = [Text (name exp'), Text '': $'', Fixed2 (amount exp'), Text '' is due today.'']\<rparr>"

text \<open>
  The callback of \<^verbatim>\<open>forEach\<close> (lines 111 to 130), called on element \<open>i\<close> of the
  snapshot \<^verbatim>\<open>expenses.slice()\<close>. The snapshot is a copy of the array, not of the
  objects in it: its element \<open>i\<close> is the object that \<^verbatim>\<open>expenses\<close> holds at index
  \<open>i\<close>, which is why the assignment of line 128 changes the ledger. Nothing is ever
  removed from \<^verbatim>\<open>expenses\<close> during the sweep, so that object is read as
  \<open>expenses st ! i\<close>. An exception (\<^verbatim>\<open>toISOString\<close> on an invalid date) leaves the
  callback after the notification and before the push.
\<close>

definition forEach_callback :: "tz \<Rightarrow> string \<Rightarrow> string \<Rightarrow> nat \<Rightarrow> app \<Rightarrow> error option \<times> app" where
  "forEach_callback LocalTZA permission today i st =
     (let exp' = expenses st ! i in
      if due today exp' then
        (let st1 = (if permission = ''granted''
                    then st\<lparr>effects := effects st @ [Notify (reminder exp')]\<rparr>
                    else st);
             cloned = exp'\<lparr>id' := id' (last (expenses st1)) + 1, date := the (nextDate exp')\<rparr>
         in case next_date_string LocalTZA (the (nextDate exp')) (frequency exp') of
              Inl e \<Rightarrow> (Some e, st1)
            | Inr nd \<Rightarrow>
                (None, st1\<lparr>expenses :=
                   (expenses st1 @ [cloned\<lparr>nextDate := Some nd\<rparr>])[i := exp'\<lparr>nextDate := Some nd\<rparr>]\<rparr>))
      else (None, st))"

text \<open>
  \<^verbatim>\<open>snapshot.forEach(f)\<close>: the callback on the indices \<open>i\<close>, \<open>i + 1\<close>, ... of a
  snapshot with \<open>n\<close> elements left, stopping at the first exception.
\<close>

fun forEach :: "(nat \<Rightarrow> app \<Rightarrow> error option \<times> app) \<Rightarrow> nat \<Rightarrow> nat \<Rightarrow> app \<Rightarrow> error option \<times> app" where
  "forEach f i 0 st = (None, st)"
| "forEach f i (Suc n) st =
     (case f i st of
        (Some e, st') \<Rightarrow> (Some e, st')
      | (None, st') \<Rightarrow> forEach f (Suc i) n st')"

text \<open>\<^verbatim>\<open>new Date().toISOString().substr(0,10)\<close> at the instant \<open>now\<close>.\<close>

definition today_of :: "int \<Rightarrow> string" where
  "today_of now = substr_0_10 (iso_string now)"

text \<open>
  \<^verbatim>\<open>migrateRecurring()\<close> (lines 109 to 132). Its parameters are the host's time zone,
  the value of \<^verbatim>\<open>Notification.permission\<close> and the reading of the clock. The ledger is
  written to storage only when the loop has ended without an exception.
\<close>

definition migrateRecurring :: "tz \<Rightarrow> string \<Rightarrow> int \<Rightarrow> app \<Rightarrow> error option \<times> app" where
  "migrateRecurring LocalTZA permission now st =
     (let today = today_of now in
      case forEach (forEach_callback LocalTZA permission today) 0 (length (expenses st)) st of
        (Some e, st') \<Rightarrow> (Some e, st')
      | (None, st') \<Rightarrow> (None, st'\<lparr>effects := effects st' @ [SetItem_expenses (expenses st')]\<rparr>))"

subsection \<open>Budgets\<close>

text \<open>
  \<^verbatim>\<open>budgets[category] = amount\<close>: an existing key keeps its place, a new one goes last.
\<close>

fun assign :: "string \<Rightarrow> jsnum \<Rightarrow> (string \<times> jsnum) list \<Rightarrow> (string \<times> jsnum) list" where
  "assign k v [] = [(k, v)]"
| "assign k v ((k', v') # kvs) = (if k = k' then (k, v) # kvs else (k', v') # assign k v kvs)"

text \<open>
  The property name under which an expense's category is looked up in
  \<^verbatim>\<open>currentMonthExpenses\<close>: a missing category is the key \<^verbatim>\<open>"undefined"\<close>.
\<close>

definition property_key :: "string option \<Rightarrow> string" where
  "property_key c = (case c of None \<Rightarrow> ''undefined'' | Some k \<Rightarrow> k)"

text \<open>
  The callback of lines 622 to 630: the expense is added to its category's total when
  the local month and year of \<^verbatim>\<open>new Date(expense.date)\<close> are those of the current
  date. An invalid date has the month NaN and is skipped.
\<close>

definition sum_month :: "tz \<Rightarrow> int option \<Rightarrow> int option \<Rightarrow> (string \<rightharpoonup> jsnum) \<Rightarrow> expense \<Rightarrow> (string \<rightharpoonup> jsnum)" where
  "sum_month LocalTZA currentMonth currentYear currentMonthExpenses expense =
     (let (h, expenseDate) = new_Date [] (Date_parse (date expense)) in
      if getMonth LocalTZA h expenseDate = currentMonth \<and>
         getFullYear LocalTZA h expenseDate = currentYear
      then
        (let k = property_key (category expense);
             m = (if (case currentMonthExpenses k of None \<Rightarrow> True | Some v \<Rightarrow> \<not> truthy v)
                  then currentMonthExpenses(k \<mapsto> Fin 0) else currentMonthExpenses)
         in m(k \<mapsto> js_add (the (m k)) (amount expense)))
      else currentMonthExpenses)"

text \<open>The callback of lines 639 to 676, without the HTML.\<close>

definition budget_progress :: "(string \<rightharpoonup> jsnum) \<Rightarrow> string \<times> jsnum \<Rightarrow> budget_item" where
  "budget_progress currentMonthExpenses entry =
     (let category = fst entry;
          budgetAmount = snd entry;
          spent = (case currentMonthExpenses category of
                     None \<Rightarrow> Fin 0
                   | Some v \<Rightarrow> if truthy v then v else Fin 0);
          remaining = js_sub budgetAmount spent;
          percentage = Math_min (js_mul (js_div spent budgetAmount) (Fin 100)) (Fin 100);
          statusClass = (if js_ge percentage (Fin 90) then ''danger''
                         else if js_ge percentage (Fin 75) then ''warning''
                         else [])
      in \<lparr>item_category = category, budgetAmount = budgetAmount, spent = spent,
          remaining = remaining, percentage = percentage, statusClass = statusClass,
          budget_alert = js_ge percentage (Fin 90)\<rparr>)"

text \<open>
  The computation of \<^verbatim>\<open>updateBudgetOverview()\<close> (lines 611 to 683) at the instant
  \<open>now\<close>: one item per budget, in the order of the keys; none when no budget is set
  (the page then shows a hint instead).
\<close>

definition budget_items :: "tz \<Rightarrow> int \<Rightarrow> (string \<times> jsnum) list \<Rightarrow> expense list \<Rightarrow> budget_item list" where
  "budget_items LocalTZA now bs es =
     (let (h, currentDate) = new_Date [] (Some now);
          currentMonth = getMonth LocalTZA h currentDate;
          currentYear = getFullYear LocalTZA h currentDate;
          currentMonthExpenses = foldl (sum_month LocalTZA currentMonth currentYear) Map.empty es
      in map (budget_progress currentMonthExpenses) bs)"

definition updateBudgetOverview :: "tz \<Rightarrow> int \<Rightarrow> app \<Rightarrow> app" where
  "updateBudgetOverview LocalTZA now st =
     st\<lparr>effects := effects st @
          [BudgetOverview (budget_items LocalTZA now (budgets st) (expenses st))]\<rparr>"

text \<open>
  \<^verbatim>\<open>setBudget()\<close> (lines 591 to 604), on the selected category and the number
  \<^verbatim>\<open>parseFloat\<close> made of the amount field.
\<close>

definition setBudget :: "tz \<Rightarrow> int \<Rightarrow> string \<Rightarrow> jsnum \<Rightarrow> app \<Rightarrow> app" where
  "setBudget LocalTZA now category' amount' st =
     (if category' \<noteq> [] \<and> js_gt amount' (Fin 0) then
        (let st1 = st\<lparr>budgets := assign category' amount' (budgets st)\<rparr>;
             st2 = st1\<lparr>effects := effects st1 @ [SetItem_budgets (budgets st1)]\<rparr>;
             st3 = updateBudgetOverview LocalTZA now st2
         in st3\<lparr>effects := effects st3 @
               [Alert [Text ''Budget set for '', Text category', Text '': $'', Fixed2 amount']]\<rparr>)
      else st\<lparr>effects := effects st @
               [Alert [Text ''Please select a category and enter a valid budget amount'']]\<rparr>)"

subsection \<open>Adding an expense\<close>

text \<open>
  The fields of the form that \<^verbatim>\<open>addExpense\<close> reads. The amount is the number that the
  text of the amount field stands for (the code compares the text with 0 and converts it
  with \<^verbatim>\<open>parseFloat\<close>; on the text of a numeric input field both give that number).
\<close>

record form =
  f_category :: string
  f_subcategory :: string
  f_paymentType :: string
  f_name :: string
  f_date :: string
  f_amount :: jsnum
  f_recurring :: bool
  f_recurrence :: string

text \<open>
  \<^verbatim>\<open>addExpense(e)\<close> (lines 267 to 321), at the instant \<open>now\<close>. The object literal
  computes \<^verbatim>\<open>nextDate\<close> before anything is pushed, so an exception there leaves the
  ledger as it was. After the push the ledger is written to storage and the page is
  refreshed; of the refresh the budget overview is modelled (the rows of the table
  depend on the filters that the user has set).
\<close>

definition addExpense :: "tz \<Rightarrow> int \<Rightarrow> form \<Rightarrow> app \<Rightarrow> error option \<times> app" where
  "addExpense LocalTZA now f st =
     (let frequency = (if f_recurring f then Some (f_recurrence f) else None) in
      if f_category f \<noteq> ''chooseOne'' \<and> f_subcategory f \<noteq> ''chooseOne'' \<and>
         f_paymentType f \<noteq> ''chooseOne'' \<and> 0 < length (f_name f) \<and> f_date f \<noteq> [] \<and>
         js_gt (f_amount f) (Fin 0)
      then
        (case (if f_recurring f
               then (case next_date_string LocalTZA (f_date f) frequency of
                       Inl e \<Rightarrow> Inl e | Inr nd \<Rightarrow> Inr (Some nd))
               else Inr None) of
           Inl e \<Rightarrow> (Some e, st)
         | Inr nd \<Rightarrow>
             (let expense = \<lparr>category = Some (f_category f),
                             subcategory = Some (f_subcategory f),
                             paymentType = Some (f_paymentType f),
                             type' = None,
                             name = f_name f,
                             date = f_date f,
                             amount = f_amount f,
                             recurring = f_recurring f,
                             frequency = frequency,
                             nextDate = nd,
                             id' = (if 0 < length (expenses st)
                                    then id' (last (expenses st)) + 1 else 1)\<rparr>;
                  st1 = st\<lparr>expenses := expenses st @ [expense]\<rparr>;
                  st2 = st1\<lparr>effects := effects st1 @ [SetItem_expenses (expenses st1)]\<rparr>
              in (None, updateBudgetOverview LocalTZA now st2)))
      else (None, st\<lparr>effects := effects st @ [Alert [Text ''Please fill in all fields correctly.'']]\<rparr>))"

subsection \<open>Legacy data and the load of the page\<close>

text \<open>
  \<^verbatim>\<open>showExpenses()\<close> (lines 328 to 375) on a freshly loaded page, where both filters
  of \<^verbatim>\<open>activeFilters\<close> are \<^verbatim>\<open>'all'\<close> (line 94): every record of the ledger makes a row
  of the table, in the order of the ledger. The amounts being numbers, \<^verbatim>\<open>toFixed\<close>
  raises no exception.
\<close>

definition showExpenses :: "app \<Rightarrow> app" where
  "showExpenses st = st\<lparr>effects := effects st @ [ShowExpenses (expenses st)]\<rparr>"

text \<open>
  The object that \<^verbatim>\<open>migrateOldData\<close> builds from a record (lines 707 to 715). It has
  the seven fields listed there and no others: \<^verbatim>\<open>expense.type || 'Other'\<close> is the
  legacy payment method unless that is missing or empty, and \<^verbatim>\<open>parseFloat\<close> of a
  number is that number.
\<close>

definition migrated :: "expense \<Rightarrow> expense" where
  "migrated expense =
     \<lparr>category = Some ''Other'',
      subcategory = Some ''Miscellaneous'',
      paymentType = Some (case type' expense of
                            None \<Rightarrow> ''Other''
                          | Some t \<Rightarrow> if t \<noteq> [] then t else ''Other''),
      type' = None,
      name = name expense,
      date = date expense,
      amount = amount expense,
      recurring = False,
      frequency = None,
      nextDate = None,
      id' = id' expense\<rparr>"

text \<open>
  \<^verbatim>\<open>migrateOldData()\<close> (lines 704 to 721). The test of line 705,
  \<^verbatim>\<open>expenses.length > 0 && !expenses[0].hasOwnProperty('category')\<close>, looks at the
  first record only; the migrated array goes to storage, not to \<^verbatim>\<open>expenses\<close>, and the
  page is reloaded.
\<close>

definition migrateOldData :: "app \<Rightarrow> app" where
  "migrateOldData st =
     (if 0 < length (expenses st) \<and> category (expenses st ! 0) = None then
        st\<lparr>effects := effects st @ [SetItem_expenses (map migrated (expenses st)), Reload]\<rparr>
      else st)"

text \<open>
  \<^verbatim>\<open>initializePage()\<close> (lines 139 to 154): the sweep, then the parts of the page. Of
  these the expense table and the budget overview are modelled; the dropdowns, the
  chart and the request for the notification permission do not touch the ledger. An
  exception of the sweep leaves the function before anything is rendered.
\<close>

definition initializePage :: "tz \<Rightarrow> string \<Rightarrow> int \<Rightarrow> app \<Rightarrow> error option \<times> app" where
  "initializePage LocalTZA permission now st =
     (case migrateRecurring LocalTZA permission now st of
        (Some e, st') \<Rightarrow> (Some e, st')
      | (None, st') \<Rightarrow> (None, updateBudgetOverview LocalTZA now (showExpenses st')))"

text \<open>
  The script from top to bottom: \<^verbatim>\<open>expenses\<close> and \<^verbatim>\<open>budgets\<close> are read from storage
  (lines 89 and 90), \<^verbatim>\<open>initializePage()\<close> is called (line 100), and the last statement
  of the file calls \<^verbatim>\<open>migrateOldData()\<close> (line 743). An uncaught exception ends the
  script.
\<close>

definition page_load :: "tz \<Rightarrow> string \<Rightarrow> int \<Rightarrow> expense list \<Rightarrow> (string \<times> jsnum) list \<Rightarrow> error option \<times> app" where
  "page_load LocalTZA permission now stored_expenses stored_budgets =
     (let st0 = \<lparr>expenses = stored_expenses, budgets = stored_budgets, effects = []\<rparr> in
      case initializePage LocalTZA permission now st0 of
        (Some e, st1) \<Rightarrow> (Some e, st1)
      | (None, st1) \<Rightarrow> (None, migrateOldData st1))"

subsection \<open>Notions used to state the properties\<close>

text \<open>
  The states that additions and sweeps reach from an empty ledger (no deletion).
\<close>

inductive reachable :: "tz \<Rightarrow> app \<Rightarrow> bool" for LocalTZA :: tz where
  empty_ledger: "expenses st = [] \<Longrightarrow> reachable LocalTZA st"
| added: "reachable LocalTZA st \<Longrightarrow> addExpense LocalTZA now f st = (r, st')
            \<Longrightarrow> reachable LocalTZA st'"
| swept: "reachable LocalTZA st \<Longrightarrow> migrateRecurring LocalTZA permission now st = (r, st')
            \<Longrightarrow> reachable LocalTZA st'"

text \<open>
  The next due date that the sweep computes for a record (the record's own next due
  date where \<^verbatim>\<open>toISOString\<close> throws and nothing is computed).
\<close>

definition advanced_date :: "tz \<Rightarrow> expense \<Rightarrow> string" where
  "advanced_date LocalTZA e =
     (case next_date_string LocalTZA (the (nextDate e)) (frequency e) of
        Inr nd \<Rightarrow> nd
      | Inl _ \<Rightarrow> the (nextDate e))"

text \<open>A source record after the sweep: its next due date is advanced when it was due.\<close>

definition advance :: "tz \<Rightarrow> string \<Rightarrow> expense \<Rightarrow> expense" where
  "advance LocalTZA today e =
     (if due today e then e\<lparr>nextDate := Some (advanced_date LocalTZA e)\<rparr> else e)"

text \<open>
  The occurrences that a sweep appends for the records \<open>es\<close>, in their order, the last
  identifier in the ledger being \<open>lastid\<close>.
\<close>

fun occurrences :: "tz \<Rightarrow> string \<Rightarrow> int \<Rightarrow> expense list \<Rightarrow> expense list" where
  "occurrences LocalTZA today lastid [] = []"
| "occurrences LocalTZA today lastid (e # es) =
     (if due today e
      then e\<lparr>id' := lastid + 1, date := the (nextDate e),
             nextDate := Some (advanced_date LocalTZA e)\<rparr>
           # occurrences LocalTZA today (lastid + 1) es
      else occurrences LocalTZA today lastid es)"

text \<open>
  The test that \<^verbatim>\<open>updateBudgetOverview\<close> applies to a record (line 624) at the instant
  \<open>now\<close>, and the sum of the amounts of the records of a category that pass it. This is
  the month test of the code, which reads the date as midnight UTC and compares its
  local month and year; it is not the calendar month of the date as it is written.
\<close>

definition in_current_month :: "tz \<Rightarrow> int \<Rightarrow> expense \<Rightarrow> bool" where
  "in_current_month LocalTZA now e =
     (let (h, currentDate) = new_Date [] (Some now);
          (h', expenseDate) = new_Date [] (Date_parse (date e))
      in getMonth LocalTZA h' expenseDate = getMonth LocalTZA h currentDate \<and>
         getFullYear LocalTZA h' expenseDate = getFullYear LocalTZA h currentDate)"

definition finite_amount :: "jsnum \<Rightarrow> real" where
  "finite_amount v = (case v of Fin r \<Rightarrow> r | _ \<Rightarrow> 0)"

definition month_total :: "tz \<Rightarrow> int \<Rightarrow> expense list \<Rightarrow> string \<Rightarrow> real" where
  "month_total LocalTZA now es c =
     sum_list (map (\<lambda>e. finite_amount (amount e))
       (filter (\<lambda>e. in_current_month LocalTZA now e \<and> property_key (category e) = c) es))"

text \<open>
  The time value of the object that \<^verbatim>\<open>computeNextDate\<close> returns, for a date object
  with the time value \<open>tv\<close>: the local wall-clock time moved to the day one (or seven)
  later at the same time of day, or to the same day of the month in the following
  month, and read back as a UTC instant.
\<close>

definition next_value :: "tz \<Rightarrow> timevalue \<Rightarrow> string option \<Rightarrow> timevalue" where
  "next_value LocalTZA tv f =
     (case tv of
        None \<Rightarrow> None
      | Some t \<Rightarrow>
          (let lt = LocalTime LocalTZA t in
           if f = Some ''daily'' then
             TimeClip (UTC LocalTZA (MakeDate (Day lt + 1) (TimeWithinDay lt)))
           else if f = Some ''weekly'' then
             TimeClip (UTC LocalTZA (MakeDate (Day lt + 7) (TimeWithinDay lt)))
           else if f = Some ''monthly'' then
             TimeClip (UTC LocalTZA
               (MakeDate (MakeDay (YearFromTime lt) (MonthFromTime lt + 1) (DateFromTime lt))
                  (TimeWithinDay lt)))
           else Some t))"

text \<open>The state after the reminder of lines 114 to 118.\<close>

definition notified :: "string \<Rightarrow> expense \<Rightarrow> app \<Rightarrow> app" where
  "notified permission e st =
     (if permission = ''granted'' then st\<lparr>effects := effects st @ [Notify (reminder e)]\<rparr>
      else st)"

text \<open>
  The test of line 624 on an expense, for a current month and year; the total of a key of
  \<^verbatim>\<open>currentMonthExpenses\<close> as a real number; and the maps whose values are all finite.
\<close>

definition month_test :: "tz \<Rightarrow> int option \<Rightarrow> int option \<Rightarrow> expense \<Rightarrow> bool" where
  "month_test tz cm cy e =
     (getMonth tz [Date_parse (date e)] 0 = cm \<and> getFullYear tz [Date_parse (date e)] 0 = cy)"

definition total_of :: "(string \<rightharpoonup> jsnum) \<Rightarrow> string \<Rightarrow> real" where
  "total_of m k = (case m k of None \<Rightarrow> 0 | Some v \<Rightarrow> finite_amount v)"

definition all_finite :: "(string \<rightharpoonup> jsnum) \<Rightarrow> bool" where
  "all_finite m = (\<forall>k v. m k = Some v \<longrightarrow> (\<exists>r. v = Fin r))"

text \<open>
  A record in the legacy format, as far as the code can tell: the object has no
  \<^verbatim>\<open>category\<close> property, and no \<^verbatim>\<open>recurring\<close> property either (the legacy format
  has \<^verbatim>\<open>type\<close>, \<^verbatim>\<open>name\<close>, \<^verbatim>\<open>date\<close>, \<^verbatim>\<open>amount\<close> and \<^verbatim>\<open>id\<close>).
\<close>

definition legacy :: "expense \<Rightarrow> bool" where
  "legacy e = (category e = None \<and> \<not> recurring e)"

subsection \<open>Example data\<close>

text \<open>Noon UTC on 15 January 2024, as a time value.\<close>

definition noon_2024_01_15 :: int where
  "noon_2024_01_15 = 1705320000000"

text \<open>A daily recurring expense whose next due date lies ten days before that day.\<close>

definition gym :: expense where
  "gym = \<lparr>category = Some ''Health'', subcategory = Some ''Fitness'', paymentType = Some ''Card'',
     type' = None, name = ''Gym'', date = ''2024-01-04'', amount = Fin 12, recurring = True,
     frequency = Some ''daily'', nextDate = Some ''2024-01-05'', id' = 1\<rparr>"

text \<open>The ledger that holds only \<open>gym\<close>, after one sweep on that day.\<close>

definition gym1 :: "expense list" where
  "gym1 = [gym\<lparr>nextDate := Some ''2024-01-06''\<rparr>,
           gym\<lparr>id' := 2, date := ''2024-01-05'', nextDate := Some ''2024-01-06''\<rparr>]"

text \<open>The form that creates \<open>gym\<close> in an empty ledger.\<close>

definition gym_form :: form where
  "gym_form = \<lparr>f_category = ''Health'', f_subcategory = ''Fitness'', f_paymentType = ''Card'',
     f_name = ''Gym'', f_date = ''2024-01-04'', f_amount = Fin 12, f_recurring = True,
     f_recurrence = ''daily''\<rparr>"

text \<open>The ledger \<open>gym1\<close> after a second sweep on that day.\<close>

definition gym2 :: "expense list" where
  "gym2 = [gym\<lparr>nextDate := Some ''2024-01-07''\<rparr>,
           gym\<lparr>id' := 2, date := ''2024-01-05'', nextDate := Some ''2024-01-07''\<rparr>,
           gym\<lparr>id' := 3, date := ''2024-01-06'', nextDate := Some ''2024-01-07''\<rparr>,
           gym\<lparr>id' := 4, date := ''2024-01-06'', nextDate := Some ''2024-01-07''\<rparr>]"

text \<open>A weekly recurring expense that is due on that day exactly.\<close>

definition rent :: expense where
  "rent = \<lparr>category = Some ''Housing'', subcategory = Some ''Rent/Mortgage'',
     paymentType = Some ''Transfer'', type' = None, name = ''Rent'', date = ''2024-01-08'',
     amount = Fin 300, recurring = True, frequency = Some ''weekly'',
     nextDate = Some ''2024-01-15'', id' = 1\<rparr>"

text \<open>The ledger that holds only \<open>rent\<close>, after one sweep on that day.\<close>

definition rent1 :: "expense list" where
  "rent1 = [rent\<lparr>nextDate := Some ''2024-01-22''\<rparr>,
            rent\<lparr>id' := 2, date := ''2024-01-15'', nextDate := Some ''2024-01-22''\<rparr>]"

text \<open>A daily expense entered for 10 March 2024, the day on which New York moves its clocks forward.\<close>

definition spring_form :: form where
  "spring_form = \<lparr>f_category = ''Health'', f_subcategory = ''Fitness'', f_paymentType = ''Card'',
     f_name = ''Gym'', f_date = ''2024-03-10'', f_amount = Fin 12, f_recurring = True,
     f_recurrence = ''daily''\<rparr>"

text \<open>A lunch of 10 January 2024 that cost \<open>a\<close>.\<close>

definition lunch :: "real \<Rightarrow> expense" where
  "lunch a = \<lparr>category = Some ''Food & Dining'', subcategory = Some ''Restaurants'',
     paymentType = Some ''Cash'', type' = None, name = ''Lunch'', date = ''2024-01-10'',
     amount = Fin a, recurring = False, frequency = None, nextDate = None, id' = 1\<rparr>"

text \<open>Noon UTC on 15 March 2024, as a time value.\<close>

definition noon_2024_03_15 :: int where
  "noon_2024_03_15 = 1710504000000"

text \<open>
  The record that \<^verbatim>\<open>addExpense\<close> makes of \<open>spring_form\<close> in an empty ledger on a host
  on New York time.
\<close>

definition spring_gym :: expense where
  "spring_gym = \<lparr>category = Some ''Health'', subcategory = Some ''Fitness'',
     paymentType = Some ''Card'', type' = None, name = ''Gym'', date = ''2024-03-10'',
     amount = Fin 12, recurring = True, frequency = Some ''daily'',
     nextDate = Some ''2024-03-10'', id' = 1\<rparr>"

text \<open>A lunch of 1 January 2024 that cost 50.\<close>

definition new_year_lunch :: expense where
  "new_year_lunch = \<lparr>category = Some ''Food & Dining'', subcategory = Some ''Restaurants'',
     paymentType = Some ''Cash'', type' = None, name = ''Lunch'', date = ''2024-01-01'',
     amount = Fin 50, recurring = False, frequency = None, nextDate = None, id' = 1\<rparr>"

text \<open>A record in the legacy format: no category, the payment method under \<^verbatim>\<open>type\<close>.\<close>

definition old_lunch :: expense where
  "old_lunch = \<lparr>category = None, subcategory = None, paymentType = None, type' = Some ''Cash'',
     name = ''Lunch'', date = ''2024-01-10'', amount = Fin 8, recurring = False,
     frequency = None, nextDate = None, id' = 1\<rparr>"

section \<open>The calendar\<close>

lemma div_step:
  assumes c: "0 < c"
  shows "((a::int) + 1) div c = a div c + (if (a + 1) mod c = 0 then 1 else 0)"
proof -
  have a: "a = c * (a div c) + a mod c" by simp
  have r: "0 \<le> a mod c" "a mod c < c" using c by simp_all
  show ?thesis
  proof (cases "a mod c = c - 1")
    case True
    then have "a + 1 = c * (a div c) + c" using a by linarith
    then have e: "a + 1 = c * (a div c + 1) + 0" by (simp add: distrib_left)
    have "(a + 1) div c = a div c + 1" by (rule int_div_pos_eq[OF e]) (use c in simp_all)
    moreover have "(a + 1) mod c = 0" by (rule int_mod_pos_eq[OF e]) (use c in simp_all)
    ultimately show ?thesis by simp
  next
    case False
    then have lt: "a mod c + 1 < c" using r by linarith
    have e: "a + 1 = c * (a div c) + (a mod c + 1)" using a by linarith
    have "(a + 1) div c = a div c" by (rule int_div_pos_eq[OF e]) (use lt r in simp_all)
    moreover have "(a + 1) mod c = a mod c + 1" by (rule int_mod_pos_eq[OF e]) (use lt r in simp_all)
    ultimately show ?thesis using r by simp
  qed
qed

lemma mod_shift: "((y::int) - c * k) mod c = y mod c"
  by (metis mod_mult_self1 diff_conv_add_uminus mult.commute mult_minus_right)

lemma m4: "((y::int) - 1969 + 1) mod 4 = y mod 4"
  using mod_shift[of y 4 492] by simp
lemma m100: "((y::int) - 1901 + 1) mod 100 =  y mod 100"
  using mod_shift[of y 100 19] by simp
lemma m400: "((y::int) - 1601 + 1) mod 400 = y mod 400"
  using mod_shift[of y 400 4] by simp
lemma m4_100: "(y::int) mod 100 = 0 \<Longrightarrow> y mod 4 = 0"
  using mod_mod_cancel[of 4 100 y] by simp

lemma m100_400: "(y::int) mod 400 = 0 \<Longrightarrow> y mod 100 = 0"
  using mod_mod_cancel[of 100 400 y] by simp

lemma DayFromYear_Suc: "DayFromYear (y + 1) = DayFromYear y + DaysInYear y"
proof -
  have a: "(y + 1 - 1969) div 4 = (y - 1969) div 4 + (if y mod 4 = 0 then 1 else 0)"
    using div_step[of 4 "y - 1969"] m4[of y] by (simp add: algebra_simps)
  have b: "(y + 1 - 1901) div 100 = (y - 1901) div 100 + (if y mod 100 = 0 then 1 else 0)"
    using div_step[of 100 "y - 1901"] m100[of y] by (simp add: algebra_simps)
  have c: "(y + 1 - 1601) div 400 = (y - 1601) div 400 + (if y mod 400 = 0 then 1 else 0)"
    using div_step[of 400 "y - 1601"] m400[of y] by (simp add: algebra_simps)
  show ?thesis
    unfolding DayFromYear_def DaysInYear_def a b c
    using m4_100[of y] m100_400[of y] by auto
qed


lemma DaysInYear_pos: "365 \<le> DaysInYear y \<and> DaysInYear y \<le> 366"
  by (simp add: DaysInYear_def)

lemma DayFromYear_less_Suc: "DayFromYear y < DayFromYear (y + 1)"
  using DayFromYear_Suc[of y] DaysInYear_pos[of y] by linarith

lemma DayFromYear_mono_nat: "DayFromYear y \<le> DayFromYear (y + int n)"
proof (induction n)
  case 0
  then show ?case by simp
next
  case (Suc n)
  have "DayFromYear (y + int n) < DayFromYear (y + int n + 1)" by (rule DayFromYear_less_Suc)
  moreover have "y + int (Suc n) = y + int n + 1" by simp
  ultimately show ?case using Suc by (simp only:)
qed

lemma DayFromYear_mono: "y \<le> y' \<Longrightarrow> DayFromYear y \<le> DayFromYear y'"
  using DayFromYear_mono_nat[of y "nat (y' - y)"] by simp

lemma DayFromYear_strict: "y < y' \<Longrightarrow> DayFromYear y < DayFromYear y'"
  using DayFromYear_mono[of "y + 1" y'] DayFromYear_less_Suc[of y] by linarith

lemma div_bounds: "0 < c \<Longrightarrow> c * ((a::int) div c) \<le> a \<and> a < c * (a div c) + c"
proof -
  assume c: "0 < c"
  have "a = c * (a div c) + a mod c" by simp
  moreover have "0 \<le> a mod c" "a mod c < c" using c by simp_all
  ultimately show ?thesis by linarith
qed

lemma DayFromYear_approx:
  "146097 * x - 506 \<le> 400 * DayFromYear (1970 + x) \<and>
   400 * DayFromYear (1970 + x) \<le> 146097 * x + 589"
proof -
  define a where "a = (x + 1) div 4"
  define b where "b = (x + 69) div 100"
  define c where "c = (x + 369) div 400"
  have a: "4 * a \<le> x + 1" "x + 1 < 4 * a + 4"
    using div_bounds[of 4 "x + 1"] by (simp_all add: a_def)
  have b: "100 * b \<le> x + 69" "x + 69 < 100 * b + 100"
    using div_bounds[of 100 "x + 69"] by (simp_all add: b_def)
  have c: "400 * c \<le> x + 369" "x + 369 < 400 * c + 400"
    using div_bounds[of 400 "x + 369"] by (simp_all add: c_def)
  have "1970 + x - 1969 = x + 1" "1970 + x - 1901 = x + 69" "1970 + x - 1601 = x + 369"
    "1970 + x - 1970 = x" by simp_all
  then have "DayFromYear (1970 + x) = 365 * x + a - b + c"
    unfolding DayFromYear_def a_def b_def c_def by (simp only:)
  then show ?thesis using a b c by linarith
qed

lemma YearFromDay_bounds:
  "DayFromYear (YearFromDay d) \<le> d \<and> d < DayFromYear (YearFromDay d + 1)"
proof -
  define x where "x = (400 * d) div 146097"
  have x: "146097 * x \<le> 400 * d" "400 * d < 146097 * x + 146097"
    using div_bounds[of 146097 "400 * d"] by (simp_all add: x_def)
  have "1970 + x - 1 = 1970 + (x - 1)" "1970 + x + 1 + 1 = 1970 + (x + 2)" by simp_all
  then have lo: "DayFromYear (1970 + x - 1) \<le> d" and hi: "d < DayFromYear (1970 + x + 1 + 1)"
    using DayFromYear_approx[of "x - 1"] DayFromYear_approx[of "x + 2"] x by simp_all
  show ?thesis
    unfolding YearFromDay_def x_def[symmetric] Let_def
    using lo hi by auto
qed

lemma YearFromDay_unique:
  assumes "DayFromYear y \<le> d" "d < DayFromYear (y + 1)"
  shows "YearFromDay d = y"
proof (rule ccontr)
  assume ne: "YearFromDay d \<noteq> y"
  have b: "DayFromYear (YearFromDay d) \<le> d" "d < DayFromYear (YearFromDay d + 1)"
    using YearFromDay_bounds[of d] by simp_all
  show False
  proof (cases "YearFromDay d < y")
    case True
    then have "DayFromYear (YearFromDay d + 1) \<le> DayFromYear y"
      by (intro DayFromYear_mono) simp
    then show False using b assms by linarith
  next
    case False
    then have "y + 1 \<le> YearFromDay d" using ne by simp
    then have "DayFromYear (y + 1) \<le> DayFromYear (YearFromDay d)"
      by (rule DayFromYear_mono)
    then show False using b assms by linarith
  qed
qed


lemma month_cases:
  assumes "0 \<le> (m::int)" "m \<le> 11"
  obtains "m = 0" | "m = 1" | "m = 2" | "m = 3" | "m = 4" | "m = 5" | "m = 6"
    | "m = 7" | "m = 8" | "m = 9" | "m = 10" | "m = 11"
proof -
  have "m = 0 \<or> m = 1 \<or> m = 2 \<or> m = 3 \<or> m = 4 \<or> m = 5 \<or> m = 6
      \<or> m = 7 \<or> m = 8 \<or> m = 9 \<or> m = 10 \<or> m = 11"
    using assms by presburger
  then show thesis using that by blast
qed

lemma MonthFromDay_range: "0 \<le> MonthFromDay leap d \<and> MonthFromDay leap d \<le> 11"
  by (simp add: MonthFromDay_def)

lemma MonthFromTime_range: "0 \<le> MonthFromTime t \<and> MonthFromTime t \<le> 11"
  by (simp add: MonthFromTime_def MonthFromDay_range)

lemma InLeapYear_eq: "(if DaysInYear (YearFromTime t) = 366 then 1 else 0) = InLeapYear t"
  by (simp add: InLeapYear_def)

text \<open>Setting the day of the month relative to the current one moves the day number by as much.\<close>

lemma MakeDay_same_month:
  "MakeDay (YearFromTime t) (MonthFromTime t) (DateFromTime t + k) = Day t + k"
proof -
  have m: "MonthFromTime t div 12 = 0" "MonthFromTime t mod 12 = MonthFromTime t"
    using MonthFromTime_range[of t] by simp_all
  show ?thesis
    unfolding MakeDay_def Let_def m
    by (simp add: InLeapYear_eq DateFromTime_def DayWithinYear_def)
qed

lemma MakeDate_shift: "MakeDate (Day t + k) (TimeWithinDay t) = t + k * msPerDay"
  by (simp add: MakeDate_def Day_def TimeWithinDay_def algebra_simps)

lemma DayWithinYear_range:
  "0 \<le> DayWithinYear t \<and> DayWithinYear t < DaysInYear (YearFromTime t)"
  using YearFromDay_bounds[of "Day t"] DayFromYear_Suc[of "YearFromTime t"]
  by (simp add: DayWithinYear_def YearFromTime_def)

lemma leap_cases: "DaysInYear y = 365 \<or> DaysInYear y = 366"
  by (simp add: DaysInYear_def)

lemma MonthStart_MonthFromDay:
  assumes "0 \<le> d" "d < 365 + leap" "leap = 0 \<or> leap = 1"
  shows "MonthStart leap (MonthFromDay leap d) \<le> d \<and>
         d < MonthStart leap (MonthFromDay leap d + 1)"
  using assms unfolding MonthStart_def MonthFromDay_def by auto

lemma DateFromTime_range:
  "1 \<le> DateFromTime t \<and> DateFromTime t \<le> DaysInMonth (YearFromTime t) (MonthFromTime t)"
proof -
  have r: "0 \<le> DayWithinYear t" "DayWithinYear t < 365 + InLeapYear t"
    using DayWithinYear_range[of t] leap_cases[of "YearFromTime t"]
    by (auto simp: InLeapYear_def)
  have l: "InLeapYear t = 0 \<or> InLeapYear t = 1" by (simp add: InLeapYear_def)
  from MonthStart_MonthFromDay[OF r l] show ?thesis
    by (simp add: DateFromTime_def DaysInMonth_def MonthFromTime_def InLeapYear_eq Let_def)
qed

text \<open>Day \<open>d\<close> of month \<open>m\<close> of year \<open>y\<close>, when the month has that many days, has these fields.\<close>

lemma MonthFromDay_MonthStart:
  assumes "0 \<le> m" "m \<le> 11" "leap = 0 \<or> leap = 1"
    "MonthStart leap m \<le> d" "d < MonthStart leap (m + 1)"
  shows "MonthFromDay leap d = m"
proof -
  from assms(1,2) consider "m = 0" | "m = 1" | "m = 2" | "m = 3" | "m = 4" | "m = 5" | "m = 6"
    | "m = 7" | "m = 8" | "m = 9" | "m = 10" | "m = 11" by (rule month_cases)
  then show ?thesis
    using assms(3,4,5) by cases (auto simp: MonthStart_def MonthFromDay_def)
qed

lemma MonthStart_bounds:
  assumes "0 \<le> m" "m \<le> 12" "leap = 0 \<or> leap = 1"
  shows "0 \<le> MonthStart leap m \<and> MonthStart leap m \<le> 365 + leap"
  using assms unfolding MonthStart_def by auto

lemma MonthStart_mono:
  assumes "0 \<le> m" "m \<le> 11" "leap = 0 \<or> leap = 1"
  shows "MonthStart leap m < MonthStart leap (m + 1) \<and> MonthStart leap (m + 1) \<le> 365 + leap"
proof -
  from assms(1,2) consider "m = 0" | "m = 1" | "m = 2" | "m = 3" | "m = 4" | "m = 5" | "m = 6"
    | "m = 7" | "m = 8" | "m = 9" | "m = 10" | "m = 11" by (rule month_cases)
  then show ?thesis
    using assms(3) by cases (auto simp: MonthStart_def)
qed

lemma fields_of_MakeDay:
  assumes m: "0 \<le> m" "m \<le> 11" and d: "1 \<le> d" "d \<le> DaysInMonth y m"
    and t: "Day t = MakeDay y m d"
  shows "YearFromTime t = y \<and> MonthFromTime t = m \<and> DateFromTime t = d"
proof -
  define leap :: int where "leap = (if DaysInYear y = 366 then 1 else 0)"
  have l: "leap = 0 \<or> leap = 1" by (simp add: leap_def)
  have md: "m div 12 = 0" "m mod 12 = m" using m by simp_all
  have day: "Day t = DayFromYear y + MonthStart leap m + d - 1"
    using t unfolding MakeDay_def Let_def md leap_def by simp
  have dim: "d \<le> MonthStart leap (m + 1) - MonthStart leap m"
    using d(2) by (simp add: DaysInMonth_def leap_def Let_def)
  have ms: "0 \<le> MonthStart leap m" "MonthStart leap (m + 1) \<le> 365 + leap"
    using MonthStart_bounds[of m leap] MonthStart_mono[of m leap] m l by simp_all
  have diy: "DaysInYear y = 365 + leap"
    using leap_cases[of y] by (auto simp: leap_def)
  have "DayFromYear y \<le> Day t" using day ms d by linarith
  moreover have "Day t < DayFromYear (y + 1)"
    using day dim ms DayFromYear_Suc[of y] diy by linarith
  ultimately have y: "YearFromTime t = y"
    unfolding YearFromTime_def by (rule YearFromDay_unique)
  have il: "InLeapYear t = leap" by (simp add: InLeapYear_def y leap_def)
  have dw: "DayWithinYear t = MonthStart leap m + d - 1"
    by (simp add: DayWithinYear_def y day)
  have "MonthFromDay leap (MonthStart leap m + d - 1) = m"
    by (rule MonthFromDay_MonthStart[OF m l]) (use d dim in simp_all)
  then have mo: "MonthFromTime t = m" by (simp add: MonthFromTime_def il dw)
  show ?thesis by (simp add: y mo DateFromTime_def il dw)
qed

section \<open>Date objects and \<^verbatim>\<open>computeNextDate\<close>\<close>

lemma MakeDay_carry: "MakeDay y m d = MakeDay (y + m div 12) (m mod 12) d"
  by (simp add: MakeDay_def Let_def)

lemma Day_MakeDate: "Day (MakeDate day (TimeWithinDay t)) = day"
  by (simp add: Day_def MakeDate_def TimeWithinDay_def msPerDay_def)

lemma TimeWithinDay_MakeDate: "TimeWithinDay (MakeDate day (TimeWithinDay t)) = TimeWithinDay t"
  by (simp add: MakeDate_def TimeWithinDay_def msPerDay_def)

lemma DaysInMonth_range:
  assumes "0 \<le> m" "m \<le> 11"
  shows "28 \<le> DaysInMonth y m \<and> DaysInMonth y m \<le> 31"
  using assms(1,2) by (cases rule: month_cases) (auto simp: DaysInMonth_def MonthStart_def Let_def)

text \<open>The value that \<open>setDate(getDate() + k)\<close> stores.\<close>

lemma setDate_getDate:
  assumes "a < length h" "h ! a = Some t"
  shows "setDate tz h a (map_option (\<lambda>d. d + k) (getDate tz h a)) =
         h[a := TimeClip (UTC tz (MakeDate (Day (LocalTime tz t) + k) (TimeWithinDay (LocalTime tz t))))]"
  using assms by (simp add: setDate_def getDate_def Let_def MakeDay_same_month)

lemma setMonth_getMonth:
  assumes "a < length h" "h ! a = Some t"
  shows "setMonth tz h a (map_option (\<lambda>m. m + 1) (getMonth tz h a)) =
         h[a := TimeClip (UTC tz (MakeDate
            (MakeDay (YearFromTime (LocalTime tz t)) (MonthFromTime (LocalTime tz t) + 1)
               (DateFromTime (LocalTime tz t)))
            (TimeWithinDay (LocalTime tz t))))]"
  using assms by (simp add: setMonth_def getMonth_def Let_def)

lemma set_invalid:
  assumes "h ! a = None"
  shows "setDate tz h a d = h[a := None]" "setMonth tz h a d = h[a := None]"
  using assms by (simp_all add: setDate_def setMonth_def)

lemma computeNextDate_value:
  "computeNextDate tz h a f = (h @ [next_value tz (h ! a) f], length h)"
proof (cases "h ! a")
  case None
  then show ?thesis
    by (simp add: computeNextDate_def new_Date_def next_value_def set_invalid nth_append)
next
  case (Some t)
  have n: "length h < length (h @ [Some t])" "(h @ [Some t]) ! length h = Some t" by simp_all
  show ?thesis
    using Some
    by (simp add: computeNextDate_def new_Date_def next_value_def Let_def
        setDate_getDate[OF n] setMonth_getMonth[OF n])
qed

lemma next_date_string_value:
  "next_date_string tz s f =
     (case next_value tz (Date_parse s) f of
        None \<Rightarrow> Inl RangeError
      | Some t \<Rightarrow> Inr (take 10 (iso_string t)))"
  by (simp add: next_date_string_def new_Date_def computeNextDate_value toISOString_def
      substr_0_10_def split: option.splits)

section \<open>The sweep\<close>

lemma callback_not_due:
  "\<not> due today (expenses st ! i) \<Longrightarrow> forEach_callback tz p today i st = (None, st)"
  by (simp add: forEach_callback_def)

lemma callback_throw:
  "due today (expenses st ! i) \<Longrightarrow>
   next_date_string tz (the (nextDate (expenses st ! i))) (frequency (expenses st ! i)) = Inl e \<Longrightarrow>
   forEach_callback tz p today i st = (Some e, notified p (expenses st ! i) st)"
  by (simp add: forEach_callback_def notified_def Let_def)

lemma callback_push:
  "due today (expenses st ! i) \<Longrightarrow>
   next_date_string tz (the (nextDate (expenses st ! i))) (frequency (expenses st ! i)) = Inr nd \<Longrightarrow>
   forEach_callback tz p today i st =
     (None, (notified p (expenses st ! i) st)\<lparr>expenses :=
        (expenses st @ [(expenses st ! i)\<lparr>id' := id' (last (expenses st)) + 1,
            date := the (nextDate (expenses st ! i)), nextDate := Some nd\<rparr>])
          [i := (expenses st ! i)\<lparr>nextDate := Some nd\<rparr>]\<rparr>)"
  by (simp add: forEach_callback_def notified_def Let_def)

lemma notified_expenses [simp]: "expenses (notified p e st) = expenses st"
  by (simp add: notified_def)

lemma notified_budgets [simp]: "budgets (notified p e st) = budgets st"
  by (simp add: notified_def)

lemma id_last_advance:
  "xs \<noteq> [] \<Longrightarrow> id' (last (map (advance tz today) xs)) = id' (last xs)"
  by (simp add: last_map advance_def)

lemma forEach_shape:
  "expenses st = P @ U @ C \<Longrightarrow> i = length P \<Longrightarrow>
   forEach (forEach_callback tz p today) i (length U) st = (r, st') \<Longrightarrow>
   \<exists>k\<le>length U.
     expenses st' = P @ map (advance tz today) (take k U) @ drop k U @ C
                      @ occurrences tz today (id' (last (expenses st))) (take k U) \<and>
     (r = None \<longrightarrow> k = length U)"
proof (induction U arbitrary: P C st i)
  case Nil
  then show ?case by simp
next
  case (Cons u U)
  have ui: "expenses st ! i = u" using Cons.prems(1,2) by simp
  show ?case
  proof (cases "due today u")
    case False
    then have cb: "forEach_callback tz p today i st = (None, st)"
      using ui by (simp add: callback_not_due)
    have run: "forEach (forEach_callback tz p today) (length (P @ [u])) (length U) st = (r, st')"
      using Cons.prems(3) cb Cons.prems(2) by simp
    have "expenses st = (P @ [u]) @ U @ C" using Cons.prems(1) by simp
    from Cons.IH[OF this refl run] obtain k where k: "k \<le> length U"
      "expenses st' = (P @ [u]) @ map (advance tz today) (take k U) @ drop k U @ C
                      @ occurrences tz today (id' (last (expenses st))) (take k U)"
      "r = None \<longrightarrow> k = length U" by blast
    show ?thesis
      by (rule exI[of _ "Suc k"]) (use k False in \<open>simp add: advance_def\<close>)
  next
    case True
    show ?thesis
    proof (cases "next_date_string tz (the (nextDate u)) (frequency u)")
      case (Inl e)
      then have "forEach_callback tz p today i st = (Some e, notified p u st)"
        using True ui by (simp add: callback_throw)
      then have "st' = notified p u st" "r = Some e" using Cons.prems(3) by simp_all
      then show ?thesis using Cons.prems(1) by (intro exI[of _ 0]) simp
    next
      case (Inr nd)
      define u' where "u' = u\<lparr>nextDate := Some nd\<rparr>"
      define c where "c = u\<lparr>id' := id' (last (expenses st)) + 1, date := the (nextDate u), nextDate := Some nd\<rparr>"
      define st1 where "st1 = (notified p u st)\<lparr>expenses := (expenses st @ [c])[i := u']\<rparr>"
      have cb: "forEach_callback tz p today i st = (None, st1)"
        using True ui Inr by (simp add: callback_push st1_def c_def u'_def)
      have e1: "expenses st1 = (P @ [u']) @ U @ (C @ [c])"
        using Cons.prems(1,2) by (simp add: st1_def list_update_append)
      have run: "forEach (forEach_callback tz p today) (length (P @ [u'])) (length U) st1 = (r, st')"
        using Cons.prems(3) cb Cons.prems(2) by simp
      have lastid: "id' (last (expenses st1)) = id' (last (expenses st)) + 1"
        using e1 by (simp add: c_def)
      from Cons.IH[OF e1 refl run] obtain k where k: "k \<le> length U"
        "expenses st' = (P @ [u']) @ map (advance tz today) (take k U) @ drop k U @ (C @ [c])
                      @ occurrences tz today (id' (last (expenses st1))) (take k U)"
        "r = None \<longrightarrow> k = length U" by blast
      have adv: "advanced_date tz u = nd" using Inr by (simp add: advanced_date_def)
      show ?thesis
        by (rule exI[of _ "Suc k"]) (use k True adv lastid in \<open>simp add: advance_def u'_def c_def\<close>)
    qed
  qed
qed


lemma forEach_effects:
  "expenses st = P @ U @ C \<Longrightarrow> i = length P \<Longrightarrow>
   forEach (forEach_callback tz p today) i (length U) st = (None, st') \<Longrightarrow>
   effects st' = effects st @ (if p = ''granted''
       then map (\<lambda>e. Notify (reminder e)) (filter (due today) U) else []) \<and>
   budgets st' = budgets st"
proof (induction U arbitrary: P C st i)
  case Nil
  then show ?case by simp
next
  case (Cons u U)
  have ui: "expenses st ! i = u" using Cons.prems(1,2) by simp
  show ?case
  proof (cases "due today u")
    case False
    then have cb: "forEach_callback tz p today i st = (None, st)"
      using ui by (simp add: callback_not_due)
    have run: "forEach (forEach_callback tz p today) (length (P @ [u])) (length U) st = (None, st')"
      using Cons.prems(3) cb Cons.prems(2) by simp
    have "expenses st = (P @ [u]) @ U @ C" using Cons.prems(1) by simp
    from Cons.IH[OF this refl run] show ?thesis using False by simp
  next
    case True
    show ?thesis
    proof (cases "next_date_string tz (the (nextDate u)) (frequency u)")
      case (Inl e)
      then have "forEach_callback tz p today i st = (Some e, notified p u st)"
        using True ui by (simp add: callback_throw)
      then show ?thesis using Cons.prems(3) by simp
    next
      case (Inr nd)
      define u' where "u' = u\<lparr>nextDate := Some nd\<rparr>"
      define c where "c = u\<lparr>id' := id' (last (expenses st)) + 1, date := the (nextDate u), nextDate := Some nd\<rparr>"
      define st1 where "st1 = (notified p u st)\<lparr>expenses := (expenses st @ [c])[i := u']\<rparr>"
      have cb: "forEach_callback tz p today i st = (None, st1)"
        using True ui Inr by (simp add: callback_push st1_def c_def u'_def)
      have e1: "expenses st1 = (P @ [u']) @ U @ (C @ [c])"
        using Cons.prems(1,2) by (simp add: st1_def list_update_append)
      have run: "forEach (forEach_callback tz p today) (length (P @ [u'])) (length U) st1 = (None, st')"
        using Cons.prems(3) cb Cons.prems(2) by simp
      have f1: "effects st1 = effects st @ (if p = ''granted'' then [Notify (reminder u)] else [])"
        "budgets st1 = budgets st"
        by (simp_all add: st1_def notified_def)
      from Cons.IH[OF e1 refl run] show ?thesis using True f1 by simp
    qed
  qed
qed

lemma length_occurrences:
  "length (occurrences tz today b es) = length (filter (due today) es)"
  by (induction es arbitrary: b) simp_all

lemma ids_occurrences:
  "map id' (occurrences tz today b es) = map (\<lambda>j. b + 1 + int j) [0..<length (filter (due today) es)]"
proof (induction es arbitrary: b)
  case Nil
  then show ?case by simp
next
  case (Cons e es)
  show ?case
  proof (cases "due today e")
    case True
    have "map (\<lambda>j. b + 1 + int j) [0..<Suc (length (filter (due today) es))]
        = (b + 1) # map (\<lambda>j. b + 1 + 1 + int j) [0..<length (filter (due today) es)]"
      by (simp add: upt_conv_Cons map_Suc_upt[symmetric] del: upt_Suc)
    then show ?thesis using True Cons.IH[of "b + 1"] by simp
  next
    case False
    then show ?thesis using Cons.IH[of b] by simp
  qed
qed

lemma ids_advance: "map id' (map (advance tz today) es) = map id' es"
  by (simp add: advance_def)

lemma nth_occurrences:
  "i < length es \<Longrightarrow> due today (es ! i) \<Longrightarrow>
   occurrences tz today b es ! length (filter (due today) (take i es)) =
     (es ! i)\<lparr>id' := b + 1 + int (length (filter (due today) (take i es))),
               date := the (nextDate (es ! i)),
               nextDate := Some (advanced_date tz (es ! i))\<rparr>"
proof (induction es arbitrary: b i)
  case Nil
  then show ?case by simp
next
  case (Cons e es)
  show ?case
  proof (cases i)
    case 0
    then show ?thesis using Cons.prems by simp
  next
    case (Suc j)
    then have j: "j < length es" "due today (es ! j)" using Cons.prems by simp_all
    show ?thesis
    proof (cases "due today e")
      case True
      then show ?thesis using Suc Cons.IH[OF j, of "b + 1"] by simp
    next
      case False
      then show ?thesis using Suc Cons.IH[OF j, of b] by simp
    qed
  qed
qed

lemma sweep_loop_total:
  "forEach (forEach_callback tz p today) 0 (length (expenses st)) st = (r, st') \<Longrightarrow>
   \<exists>k\<le>length (expenses st).
     expenses st' = map (advance tz today) (take k (expenses st)) @ drop k (expenses st)
                      @ occurrences tz today (id' (last (expenses st))) (take k (expenses st)) \<and>
     (r = None \<longrightarrow> k = length (expenses st))"
  using forEach_shape[of st "[]" "expenses st" "[]" 0 tz p today r st'] by simp

lemma migrateRecurring_cases:
  "migrateRecurring tz p now st = (r, st') \<Longrightarrow>
   \<exists>st1. forEach (forEach_callback tz p (today_of now)) 0 (length (expenses st)) st = (r, st1) \<and>
     expenses st' = expenses st1 \<and> budgets st' = budgets st1 \<and>
     effects st' = effects st1 @ (if r = None then [SetItem_expenses (expenses st1)] else [])"
  by (auto simp: migrateRecurring_def Let_def split: prod.splits option.splits)

lemma sweep_shape:
  assumes "migrateRecurring tz p now st = (r, st')"
  shows "\<exists>k\<le>length (expenses st).
     expenses st' = map (advance tz (today_of now)) (take k (expenses st)) @ drop k (expenses st)
                      @ occurrences tz (today_of now) (id' (last (expenses st))) (take k (expenses st)) \<and>
     (r = None \<longrightarrow> k = length (expenses st))"
proof -
  from migrateRecurring_cases[OF assms] obtain st1 where
    "forEach (forEach_callback tz p (today_of now)) 0 (length (expenses st)) st = (r, st1)"
    "expenses st' = expenses st1" by blast
  then show ?thesis using sweep_loop_total[of tz p "today_of now" st r st1] by simp
qed

lemma sweep_success:
  assumes "migrateRecurring tz p now st = (None, st')"
  shows "expenses st' = map (advance tz (today_of now)) (expenses st)
                      @ occurrences tz (today_of now) (id' (last (expenses st))) (expenses st)"
  using sweep_shape[OF assms] by auto

lemma sweep_effects:
  assumes "migrateRecurring tz p now st = (None, st')"
  shows "effects st' = effects st @ (if p = ''granted''
       then map (\<lambda>e. Notify (reminder e)) (filter (due (today_of now)) (expenses st)) else [])
       @ [SetItem_expenses (expenses st')] \<and> budgets st' = budgets st"
proof -
  from migrateRecurring_cases[OF assms] obtain st1 where
    a: "forEach (forEach_callback tz p (today_of now)) 0 (length (expenses st)) st = (None, st1)"
    "expenses st' = expenses st1" "budgets st' = budgets st1"
    "effects st' = effects st1 @ [SetItem_expenses (expenses st1)]" by auto
  from forEach_effects[of st "[]" "expenses st" "[]" 0 tz p "today_of now" st1] a(1)
  show ?thesis using a by simp
qed

section \<open>Evaluation of the examples\<close>

lemmas calendar_defs = YearFromTime_def YearFromDay_def Day_def msPerDay_def DayFromYear_def
  MonthFromTime_def MonthFromDay_def InLeapYear_def DayWithinYear_def DaysInYear_def
  DateFromTime_def MonthStart_def TimeWithinDay_def MakeDate_def MakeDay_def TimeClip_def

lemmas string_defs = iso_string_def iso_year_def pad2_def pad3_def pad4_def pad6_def digit_char_def
  HourFromTime_def MinFromTime_def SecFromTime_def msFromTime_def

lemmas parse_defs = Date_parse_def digit_value_def DaysInMonth_def

lemma today_noon: "today_of noon_2024_01_15 = ''2024-01-15''"
  by (simp add: today_of_def substr_0_10_def noon_2024_01_15_def string_defs calendar_defs)

lemma next_0105: "next_date_string tz_UTC ''2024-01-05'' (Some ''daily'') = Inr ''2024-01-06''"
  by (simp add: next_date_string_value next_value_def parse_defs LocalTime_def UTC_def tz_UTC_def
      string_defs calendar_defs)

lemma next_0106: "next_date_string tz_UTC ''2024-01-06'' (Some ''daily'') = Inr ''2024-01-07''"
  by (simp add: next_date_string_value next_value_def parse_defs LocalTime_def UTC_def tz_UTC_def
      string_defs calendar_defs)

lemma gym_fields:
  "nextDate gym = Some ''2024-01-05''" "frequency gym = Some ''daily''" "id' gym = 1"
  "recurring gym"
  by (simp_all add: gym_def)

lemma due_gym: "due ''2024-01-15'' gym"
  by (simp add: due_def gym_fields)

lemma callback_gym:
  "forEach_callback tz_UTC ''granted'' ''2024-01-15'' 0 \<lparr>expenses = [gym], budgets = [], effects = []\<rparr>
   = (None, \<lparr>expenses = gym1, budgets = [], effects = [Notify (reminder gym)]\<rparr>)"
  by (simp add: callback_push[where nd = "''2024-01-06''"] due_gym next_0105 gym_fields
      notified_def gym1_def)

lemma sweep_gym:
  "migrateRecurring tz_UTC ''granted'' noon_2024_01_15 \<lparr>expenses = [gym], budgets = [], effects = []\<rparr> =
   (None, \<lparr>expenses = gym1, budgets = [],
           effects = [Notify (reminder gym), SetItem_expenses gym1]\<rparr>)"
  by (simp add: migrateRecurring_def today_noon callback_gym)

lemma sweep_gym_again:
  "migrateRecurring tz_UTC ''granted'' noon_2024_01_15 \<lparr>expenses = gym1, budgets = [], effects = []\<rparr> =
   (None, \<lparr>expenses = [gym\<lparr>nextDate := Some ''2024-01-07''\<rparr>,
           gym\<lparr>id' := 2, date := ''2024-01-05'', nextDate := Some ''2024-01-07''\<rparr>,
           gym\<lparr>id' := 3, date := ''2024-01-06'', nextDate := Some ''2024-01-07''\<rparr>,
           gym\<lparr>id' := 4, date := ''2024-01-06'', nextDate := Some ''2024-01-07''\<rparr>],
       budgets = [],
       effects = [Notify (reminder (gym\<lparr>nextDate := Some ''2024-01-06''\<rparr>)),
         Notify (reminder (gym\<lparr>id' := 2, date := ''2024-01-05'', nextDate := Some ''2024-01-06''\<rparr>)),
         SetItem_expenses [gym\<lparr>nextDate := Some ''2024-01-07''\<rparr>,
           gym\<lparr>id' := 2, date := ''2024-01-05'', nextDate := Some ''2024-01-07''\<rparr>,
           gym\<lparr>id' := 3, date := ''2024-01-06'', nextDate := Some ''2024-01-07''\<rparr>,
           gym\<lparr>id' := 4, date := ''2024-01-06'', nextDate := Some ''2024-01-07''\<rparr>]]\<rparr>)"
  by (simp add: migrateRecurring_def today_noon gym1_def
    callback_push[where nd = "''2024-01-07''"] due_def next_0106 gym_fields notified_def)

section \<open>The shape of a sweep, continued\<close>

lemma forEach_no_throw:
  "expenses st = P @ U @ C \<Longrightarrow> i = length P \<Longrightarrow>
   forEach (forEach_callback tz p today) i (length U) st = (None, st') \<Longrightarrow>
   e \<in> set U \<Longrightarrow> due today e \<Longrightarrow>
   next_date_string tz (the (nextDate e)) (frequency e) = Inr (advanced_date tz e)"
proof (induction U arbitrary: P C st i)
  case Nil
  then show ?case by simp
next
  case (Cons u U)
  have ui: "expenses st ! i = u" using Cons.prems(1,2) by simp
  show ?case
  proof (cases "due today u")
    case False
    then have cb: "forEach_callback tz p today i st = (None, st)"
      using ui by (simp add: callback_not_due)
    have run: "forEach (forEach_callback tz p today) (length (P @ [u])) (length U) st = (None, st')"
      using Cons.prems(3) cb Cons.prems(2) by simp
    have "expenses st = (P @ [u]) @ U @ C" using Cons.prems(1) by simp
    from Cons.IH[OF this refl run] show ?thesis using False Cons.prems(4,5) by auto
  next
    case True
    show ?thesis
    proof (cases "next_date_string tz (the (nextDate u)) (frequency u)")
      case (Inl e)
      then have "forEach_callback tz p today i st = (Some e, notified p u st)"
        using True ui by (simp add: callback_throw)
      then show ?thesis using Cons.prems(3) by simp
    next
      case (Inr nd)
      define u' where "u' = u\<lparr>nextDate := Some nd\<rparr>"
      define c where "c = u\<lparr>id' := id' (last (expenses st)) + 1, date := the (nextDate u), nextDate := Some nd\<rparr>"
      define st1 where "st1 = (notified p u st)\<lparr>expenses := (expenses st @ [c])[i := u']\<rparr>"
      have cb: "forEach_callback tz p today i st = (None, st1)"
        using True ui Inr by (simp add: callback_push st1_def c_def u'_def)
      have e1: "expenses st1 = (P @ [u']) @ U @ (C @ [c])"
        using Cons.prems(1,2) by (simp add: st1_def list_update_append)
      have run: "forEach (forEach_callback tz p today) (length (P @ [u'])) (length U) st1 = (None, st')"
        using Cons.prems(3) cb Cons.prems(2) by simp
      have "next_date_string tz (the (nextDate u)) (frequency u) = Inr (advanced_date tz u)"
        using Inr by (simp add: advanced_date_def)
      then show ?thesis using Cons.IH[OF e1 refl run] Cons.prems(4,5) by auto
    qed
  qed
qed

lemma sweep_no_throw:
  assumes "migrateRecurring tz p now st = (None, st')" "e \<in> set (expenses st)"
    "due (today_of now) e"
  shows "next_date_string tz (the (nextDate e)) (frequency e) = Inr (advanced_date tz e)"
proof -
  from migrateRecurring_cases[OF assms(1)] have
    "forEach (forEach_callback tz p (today_of now)) 0 (length (expenses st)) st
       = (None, snd (forEach (forEach_callback tz p (today_of now)) 0 (length (expenses st)) st))"
    by auto
  from forEach_no_throw[of st "[]" "expenses st" "[]" 0 tz p "today_of now", OF _ _ this assms(2,3)]
  show ?thesis by simp
qed

lemma forEach_nothing_due:
  "(\<And>j. i \<le> j \<Longrightarrow> j < i + n \<Longrightarrow> \<not> due today (expenses st ! j)) \<Longrightarrow>
   forEach (forEach_callback tz p today) i n st = (None, st)"
proof (induction n arbitrary: i)
  case 0
  then show ?case by simp
next
  case (Suc n)
  have "\<not> due today (expenses st ! i)" using Suc.prems[of i] by simp
  then have cb: "forEach_callback tz p today i st = (None, st)" by (rule callback_not_due)
  have "forEach (forEach_callback tz p today) (Suc i) n st = (None, st)"
    by (rule Suc.IH) (use Suc.prems in simp)
  then show ?case using cb by simp
qed

lemma sweep_nothing_due:
  assumes "\<And>e. e \<in> set (expenses st) \<Longrightarrow> \<not> due (today_of now) e"
  shows "migrateRecurring tz p now st =
         (None, st\<lparr>effects := effects st @ [SetItem_expenses (expenses st)]\<rparr>)"
proof -
  have "forEach (forEach_callback tz p (today_of now)) 0 (length (expenses st)) st = (None, st)"
    by (rule forEach_nothing_due) (use assms in simp)
  then show ?thesis by (simp add: migrateRecurring_def)
qed

lemma occurrences_source:
  "c \<in> set (occurrences tz today b es) \<Longrightarrow>
   \<exists>e\<in>set es. due today e \<and> nextDate c = Some (advanced_date tz e) \<and> recurring c = recurring e
      \<and> frequency c = frequency e"
  by (induction es arbitrary: b) (auto split: if_splits)

lemma due_le_recurring:
  "length (filter (due today) es) \<le> length (filter recurring es)"
  by (induction es) (auto simp: due_def)

section \<open>Properties of the sweep\<close>

text \<open>
  C2. One call of the sweep appends at most one occurrence per recurring record that was
  in the ledger before the call: whatever the outcome, the ledger grows by no more than
  the number of records that were due, which is no more than the number of recurring
  records; the records that were there keep their places and identifiers; and when the
  sweep ends without an exception, exactly one occurrence per due record is appended,
  each built from a record of the ledger as it was before the call (\<open>occurrences\<close>),
  never from a record appended during the sweep.
\<close>

theorem sweep_one_occurrence_per_record:
  assumes "migrateRecurring tz p now st = (r, st')"
  shows "length (expenses st') \<le> length (expenses st) + length (filter (due (today_of now)) (expenses st))
       \<and> length (filter (due (today_of now)) (expenses st)) \<le> length (filter recurring (expenses st))
       \<and> map id' (take (length (expenses st)) (expenses st')) = map id' (expenses st)
       \<and> (r = None \<longrightarrow>
            length (expenses st')
              = length (expenses st) + length (filter (due (today_of now)) (expenses st)) \<and>
            drop (length (expenses st)) (expenses st')
              = occurrences tz (today_of now) (id' (last (expenses st))) (expenses st))"
proof -
  let ?l = "expenses st" and ?today = "today_of now"
  from sweep_shape[OF assms] obtain k where k: "k \<le> length ?l"
    "expenses st' = map (advance tz ?today) (take k ?l) @ drop k ?l
                      @ occurrences tz ?today (id' (last ?l)) (take k ?l)"
    "r = None \<longrightarrow> k = length ?l" by blast
  have "length (filter (due ?today) (take k ?l)) \<le> length (filter (due ?today) ?l)"
    by (metis append_take_drop_id filter_append length_append le_add1)
  then have a: "length (expenses st') \<le> length ?l + length (filter (due ?today) ?l)"
    using k(1) by (simp add: k(2) length_occurrences)
  have b: "length (filter (due ?today) ?l) \<le> length (filter recurring ?l)"
    by (rule due_le_recurring)
  have "take (length ?l) (expenses st') = map (advance tz ?today) (take k ?l) @ drop k ?l"
    using k(1) by (simp add: k(2))
  then have "map id' (take (length ?l) (expenses st'))
      = map id' (map (advance tz ?today) (take k ?l)) @ map id' (drop k ?l)"
    by simp
  also have "\<dots> = map id' (take k ?l) @ map id' (drop k ?l)"
    by (simp only: ids_advance)
  also have "\<dots> = map id' ?l"
    by (simp only: map_append[symmetric] append_take_drop_id)
  finally have c: "map id' (take (length ?l) (expenses st')) = map id' ?l" .
  have d: "r = None \<longrightarrow>
      length (expenses st') = length ?l + length (filter (due ?today) ?l) \<and>
      drop (length ?l) (expenses st') = occurrences tz ?today (id' (last ?l)) ?l"
    using k by (auto simp: length_occurrences)
  show ?thesis using a b c d by blast
qed

theorem sweep_one_occurrence_per_record_witness:
  "migrateRecurring tz_UTC ''granted'' noon_2024_01_15
       \<lparr>expenses = [gym], budgets = [], effects = []\<rparr>
     = (None, \<lparr>expenses = gym1, budgets = [],
               effects = [Notify (reminder gym), SetItem_expenses gym1]\<rparr>)
   \<and> nextDate gym = Some ''2024-01-05'' \<and> today_of noon_2024_01_15 = ''2024-01-15''
   \<and> length gym1 = length [gym] + 1"
proof -
  note run = sweep_gym
  note t = sweep_one_occurrence_per_record[OF run]
  have "length gym1 = length [gym] + length (filter (due ''2024-01-15'') [gym])"
    using t[THEN conjunct2, THEN conjunct2, THEN conjunct2, THEN mp, OF refl, THEN conjunct1]
    by (simp add: today_noon)
  then have "length gym1 = length [gym] + 1" by (simp add: due_gym)
  then show ?thesis using run gym_fields(1) today_noon by blast
qed

lemma sorted_ids_sweep:
  assumes "migrateRecurring tz p now st = (r, st')" "sorted_wrt (<) (map id' (expenses st))"
  shows "sorted_wrt (<) (map id' (expenses st'))"
proof -
  let ?l = "expenses st" and ?today = "today_of now"
  from sweep_shape[OF assms(1)] obtain k where k: "k \<le> length ?l"
    "expenses st' = map (advance tz ?today) (take k ?l) @ drop k ?l
                      @ occurrences tz ?today (id' (last ?l)) (take k ?l)" by blast
  have ids: "map id' (expenses st') = map id' ?l
       @ map (\<lambda>j. id' (last ?l) + 1 + int j) [0..<length (filter (due ?today) (take k ?l))]"
    unfolding k(2) map_append ids_advance ids_occurrences
    by (simp only: append_assoc[symmetric] map_append[symmetric] append_take_drop_id)
  show ?thesis
  proof (cases "?l = []")
    case True
    then show ?thesis using k by simp
  next
    case False
    have le: "\<And>x. x \<in> set (map id' ?l) \<Longrightarrow> x \<le> id' (last ?l)"
    proof -
      fix x assume "x \<in> set (map id' ?l)"
      then obtain j where j: "j < length ?l" "x = id' (?l ! j)"
        by (auto simp: in_set_conv_nth)
      show "x \<le> id' (last ?l)"
      proof (cases "j = length ?l - 1")
        case True
        then show ?thesis using j False by (simp add: last_conv_nth)
      next
        case False
        then have "j < length ?l - 1" using j by simp
        then have "map id' ?l ! j < map id' ?l ! (length ?l - 1)"
          using sorted_wrt_nth_less[OF assms(2), of j "length ?l - 1"] j by simp
        then show ?thesis using j \<open>?l \<noteq> []\<close> by (simp add: last_conv_nth)
      qed
    qed
    have s2: "sorted_wrt (<) (map (\<lambda>j. id' (last ?l) + 1 + int j) [0..<n])" for n
      by (simp add: sorted_wrt_map sorted_wrt_iff_nth_less)
    show ?thesis
      unfolding ids sorted_wrt_append
      using assms(2) s2 le by fastforce
  qed
qed

text \<open>
  The fields of an occurrence. For a record at index \<open>i\<close> that is due when a sweep
  without exception processes it: the next due date \<open>nd\<close> is the value of
  \<open>next_date_string\<close> on the record's previous next due date (what that value is, the
  sections on \<^verbatim>\<open>computeNextDate\<close> and on the change of the clocks tell);
  the record itself ends with that next due date and is otherwise unchanged; the
  appended occurrence is the record with a new identifier, the previous next due date as
  date and \<open>nd\<close> as next due date. The identifier is that of the last record plus one
  for each occurrence appended so far, that is, one more than the identifier of the
  record just before the occurrence in the ledger; when identifiers increase along the
  ledger they still do afterwards, so the identifier was unused.
\<close>

theorem sweep_occurrence_fields:
  assumes run: "migrateRecurring tz p now st = (None, st')"
    and i: "i < length (expenses st)"
    and d: "due (today_of now) (expenses st ! i)"
  shows "\<exists>nd. next_date_string tz (the (nextDate (expenses st ! i))) (frequency (expenses st ! i)) = Inr nd
     \<and> expenses st' ! i = (expenses st ! i)\<lparr>nextDate := Some nd\<rparr>
     \<and> length (expenses st) + length (filter (due (today_of now)) (take i (expenses st)))
          < length (expenses st')
     \<and> expenses st' ! (length (expenses st)
                         + length (filter (due (today_of now)) (take i (expenses st))))
        = (expenses st ! i)
            \<lparr>id' := id' (last (expenses st)) + 1
                     + int (length (filter (due (today_of now)) (take i (expenses st)))),
             date := the (nextDate (expenses st ! i)),
             nextDate := Some nd\<rparr>
     \<and> id' (expenses st' ! (length (expenses st)
                         + length (filter (due (today_of now)) (take i (expenses st)))))
        = id' (expenses st' ! (length (expenses st)
                         + length (filter (due (today_of now)) (take i (expenses st))) - 1)) + 1
     \<and> (sorted_wrt (<) (map id' (expenses st)) \<longrightarrow> sorted_wrt (<) (map id' (expenses st')))"
proof -
  let ?l = "expenses st" and ?today = "today_of now"
  let ?k = "length (filter (due ?today) (take i ?l))"
  let ?src = "?l ! i"
  have shape: "expenses st' = map (advance tz ?today) ?l @ occurrences tz ?today (id' (last ?l)) ?l"
    by (rule sweep_success[OF run])
  have nd: "next_date_string tz (the (nextDate ?src)) (frequency ?src) = Inr (advanced_date tz ?src)"
    by (rule sweep_no_throw[OF run _ d]) (use i in simp)
  have a: "expenses st' ! i = ?src\<lparr>nextDate := Some (advanced_date tz ?src)\<rparr>"
    using i d by (simp add: shape nth_append advance_def)
  have "?k < length (filter (due ?today) ?l)"
  proof -
    have "?l = take i ?l @ ?src # drop (Suc i) ?l" using i by (simp add: id_take_nth_drop)
    then have "filter (due ?today) ?l
        = filter (due ?today) (take i ?l) @ ?src # filter (due ?today) (drop (Suc i) ?l)"
      using d by (metis filter.simps(2) filter_append)
    then show ?thesis by simp
  qed
  then have kl: "?k < length (occurrences tz ?today (id' (last ?l)) ?l)"
    by (simp add: length_occurrences)
  then have b: "length ?l + ?k < length (expenses st')" by (simp add: shape)
  have c: "expenses st' ! (length ?l + ?k)
        = ?src\<lparr>id' := id' (last ?l) + 1 + int ?k, date := the (nextDate ?src),
                nextDate := Some (advanced_date tz ?src)\<rparr>"
    using nth_occurrences[OF i d, of tz "id' (last ?l)"] by (simp add: shape nth_append)
  have e: "id' (expenses st' ! (length ?l + ?k)) = id' (expenses st' ! (length ?l + ?k - 1)) + 1"
  proof -
    have ids: "map id' (expenses st') = map id' ?l
       @ map (\<lambda>j. id' (last ?l) + 1 + int j) [0..<length (filter (due ?today) ?l)]"
      by (simp add: shape ids_advance ids_occurrences del: map_map)
    have ne: "?l \<noteq> []" using i by auto
    have lhs: "id' (expenses st' ! (length ?l + ?k)) = id' (last ?l) + 1 + int ?k"
      by (simp add: c)
    have "id' (expenses st' ! (length ?l + ?k - 1)) = map id' (expenses st') ! (length ?l + ?k - 1)"
      using b by simp
    also have "\<dots> = id' (last ?l) + int ?k"
    proof (cases "?k = 0")
      case True
      then show ?thesis using ne i by (simp add: ids nth_append last_conv_nth)
    next
      case False
      then obtain m where m: "?k = Suc m" by (cases ?k) auto
      have mlt: "m < length (filter (due ?today) ?l)"
        using \<open>?k < length (filter (due ?today) ?l)\<close> m by simp
      have "map id' (expenses st') ! (length ?l + ?k - 1)
          = map id' (expenses st') ! (length (map id' ?l) + m)"
        by (simp add: m)
      also have "\<dots> = map (\<lambda>j. id' (last ?l) + 1 + int j) [0..<length (filter (due ?today) ?l)] ! m"
        unfolding ids by (rule nth_append_length_plus)
      also have "\<dots> = id' (last ?l) + 1 + int m"
        using mlt by simp
      finally show ?thesis by (simp add: m)
    qed
    finally show ?thesis using lhs by simp
  qed
  have f: "sorted_wrt (<) (map id' ?l) \<longrightarrow> sorted_wrt (<) (map id' (expenses st'))"
    using sorted_ids_sweep[OF run] by blast
  show ?thesis
    using nd a b c e f by blast
qed

theorem sweep_occurrence_fields_witness:
  "migrateRecurring tz_UTC ''granted'' noon_2024_01_15
       \<lparr>expenses = [gym], budgets = [], effects = []\<rparr>
     = (None, \<lparr>expenses = gym1, budgets = [],
               effects = [Notify (reminder gym), SetItem_expenses gym1]\<rparr>)
   \<and> due (today_of noon_2024_01_15) gym
   \<and> next_date_string tz_UTC ''2024-01-05'' (Some ''daily'') = Inr ''2024-01-06''
   \<and> gym1 ! 0 = gym\<lparr>nextDate := Some ''2024-01-06''\<rparr>
   \<and> gym1 ! 1 = gym\<lparr>id' := 2, date := ''2024-01-05'', nextDate := Some ''2024-01-06''\<rparr>
   \<and> sorted_wrt (<) (map id' gym1)"
proof -
  note run = sweep_gym
  have d: "due (today_of noon_2024_01_15) (expenses \<lparr>expenses = [gym], budgets = [], effects = []\<rparr> ! 0)"
    by (simp add: today_noon due_gym)
  have i: "0 < length (expenses \<lparr>expenses = [gym], budgets = [], effects = []\<rparr>)" by simp
  from sweep_occurrence_fields[OF run i d] obtain nd where
    nd: "next_date_string tz_UTC (the (nextDate gym)) (frequency gym) = Inr nd"
    and a: "gym1 ! 0 = gym\<lparr>nextDate := Some nd\<rparr>"
    and c: "gym1 ! 1 = gym\<lparr>id' := id' gym + 1, date := the (nextDate gym), nextDate := Some nd\<rparr>"
    and s: "sorted_wrt (<) (map id' gym1)"
    by auto
  have "nd = ''2024-01-06''" using nd by (simp add: gym_fields next_0105)
  then show ?thesis
    using run a c s d next_0105 by (simp add: gym_fields)
qed

lemma addExpense_cases:
  assumes "addExpense tz now f st = (r, st')"
  shows "expenses st' = expenses st \<or>
         (r = None \<and> (\<exists>e. expenses st' = expenses st @ [e] \<and>
            id' e = (if 0 < length (expenses st) then id' (last (expenses st)) + 1 else 1) \<and>
            recurring e = f_recurring f \<and>
            frequency e = (if f_recurring f then Some (f_recurrence f) else None) \<and>
            (if f_recurring f
             then next_date_string tz (f_date f) (Some (f_recurrence f)) = Inr (the (nextDate e))
                  \<and> nextDate e \<noteq> None
             else nextDate e = None)))"
  using assms
  by (auto simp: addExpense_def updateBudgetOverview_def Let_def split: if_splits sum.splits)

lemma upt_shift: "map (\<lambda>j. int n + 1 + int j) [0..<c] = map int [Suc n..<Suc (n + c)]"
proof -
  have "[Suc n..<Suc (n + c)] = map (\<lambda>j. j + Suc n) [0..<c]"
    using map_add_upt[of "Suc n" c] by (simp add: add.commute)
  then show ?thesis by (simp add: o_def add.commute add.left_commute)
qed

lemma numbered_last:
  assumes "map id' l = map int [1..<Suc (length l)]" "l \<noteq> []"
  shows "id' (last l) = int (length l)"
proof -
  have "id' (last l) = last (map id' l)" using assms(2) by (simp add: last_map)
  also have "\<dots> = last (map int [1..<Suc (length l)])" by (simp only: assms(1))
  also have "\<dots> = int (length l)"
  proof -
    have "1 \<le> length l" using assms(2) by (cases l) simp_all
    then have "[1..<Suc (length l)] = [1..<length l] @ [length l]" by simp
    then show ?thesis by (simp only: map_append last_snoc list.map)
  qed
  finally show ?thesis .
qed

lemma numbered_append:
  assumes "map id' l = map int [1..<Suc (length l)]"
    "id' e = (if 0 < length l then id' (last l) + 1 else 1)"
  shows "map id' (l @ [e]) = map int [1..<Suc (length (l @ [e]))]"
proof (cases "l = []")
  case True
  then show ?thesis using assms(2) by simp
next
  case False
  then have "id' e = int (length l) + 1" using assms numbered_last[OF assms(1)] by simp
  then show ?thesis using assms(1) by simp
qed

lemma numbered_sweep:
  assumes "migrateRecurring tz p now st = (r, st')"
    "map id' (expenses st) = map int [1..<Suc (length (expenses st))]"
  shows "map id' (expenses st') = map int [1..<Suc (length (expenses st'))]"
proof -
  let ?l = "expenses st" and ?today = "today_of now"
  from sweep_shape[OF assms(1)] obtain k where k: "k \<le> length ?l"
    "expenses st' = map (advance tz ?today) (take k ?l) @ drop k ?l
                      @ occurrences tz ?today (id' (last ?l)) (take k ?l)" by blast
  let ?c = "length (filter (due ?today) (take k ?l))"
  have len: "length (expenses st') = length ?l + ?c"
    using k(1) by (simp add: k(2) length_occurrences)
  have ids: "map id' (expenses st') = map id' ?l
       @ map (\<lambda>j. id' (last ?l) + 1 + int j) [0..<?c]"
    unfolding k(2) map_append ids_advance ids_occurrences
    by (simp only: append_assoc[symmetric] map_append[symmetric] append_take_drop_id)
  show ?thesis
  proof (cases "?l = []")
    case True
    then show ?thesis using k by simp
  next
    case False
    have "map (\<lambda>j. id' (last ?l) + 1 + int j) [0..<?c] = map int [Suc (length ?l)..<Suc (length ?l + ?c)]"
      using numbered_last[OF assms(2) False] upt_shift[of "length ?l" ?c] by simp
    then have "map id' (expenses st') = map int ([1..<Suc (length ?l)] @ [Suc (length ?l)..<Suc (length ?l + ?c)])"
      using ids assms(2) by simp
    also have "[1..<Suc (length ?l)] @ [Suc (length ?l)..<Suc (length ?l + ?c)] = [1..<Suc (length ?l + ?c)]"
      using upt_add_eq_append[of 1 "Suc (length ?l)" ?c] by simp
    finally show ?thesis by (simp only: len)
  qed
qed

lemma reachable_numbered:
  "reachable tz st \<Longrightarrow> map id' (expenses st) = map int [1..<Suc (length (expenses st))]"
proof (induction rule: reachable.induct)
  case (empty_ledger st)
  then show ?case by simp
next
  case (added st now f r st')
  from addExpense_cases[OF added.hyps(2)] show ?case
  proof
    assume "expenses st' = expenses st"
    then show ?thesis using added.IH by simp
  next
    assume "r = None \<and> (\<exists>e. expenses st' = expenses st @ [e] \<and>
            id' e = (if 0 < length (expenses st) then id' (last (expenses st)) + 1 else 1) \<and>
            recurring e = f_recurring f \<and>
            frequency e = (if f_recurring f then Some (f_recurrence f) else None) \<and>
            (if f_recurring f
             then next_date_string tz (f_date f) (Some (f_recurrence f)) = Inr (the (nextDate e))
                  \<and> nextDate e \<noteq> None
             else nextDate e = None))"
    then obtain e where e: "expenses st' = expenses st @ [e]"
      "id' e = (if 0 < length (expenses st) then id' (last (expenses st)) + 1 else 1)" by blast
    show ?thesis unfolding e(1) by (rule numbered_append[OF added.IH e(2)])
  qed
next
  case (swept st permission now r st')
  show ?case by (rule numbered_sweep[OF swept.hyps(2) swept.IH])
qed

lemma next_0104: "next_date_string tz_UTC ''2024-01-04'' (Some ''daily'') = Inr ''2024-01-05''"
  by (simp add: next_date_string_value next_value_def parse_defs LocalTime_def UTC_def tz_UTC_def
      string_defs calendar_defs)

lemma budget_items_none: "budget_items tz now [] es = []"
  by (simp add: budget_items_def new_Date_def)

lemma add_gym:
  "addExpense tz_UTC now gym_form \<lparr>expenses = [], budgets = [], effects = []\<rparr>
   = (None, \<lparr>expenses = [gym], budgets = [],
             effects = [SetItem_expenses [gym], BudgetOverview []]\<rparr>)"
  by (simp add: addExpense_def gym_form_def next_0104 gym_def Let_def updateBudgetOverview_def
      budget_items_none)

lemma callback_gym_any:
  assumes "expenses st = [gym]"
  shows "forEach_callback tz_UTC ''granted'' ''2024-01-15'' 0 st
   = (None, st\<lparr>expenses := gym1, effects := effects st @ [Notify (reminder gym)]\<rparr>)"
  using assms
  by (simp add: callback_push[where nd = "''2024-01-06''"] due_gym next_0105 gym_fields
      notified_def gym1_def)

lemma sweep_gym_any:
  assumes "expenses st = [gym]"
  shows "migrateRecurring tz_UTC ''granted'' noon_2024_01_15 st =
   (None, st\<lparr>expenses := gym1,
              effects := effects st @ [Notify (reminder gym), SetItem_expenses gym1]\<rparr>)"
  using assms by (simp add: migrateRecurring_def today_noon callback_gym_any)

lemma Max_numbered:
  assumes "0 < n"
  shows "Max (set (map int [1..<Suc n])) = int n"
proof (rule Max_eqI)
  show "finite (set (map int [1..<Suc n]))" by simp
  show "\<And>y. y \<in> set (map int [1..<Suc n]) \<Longrightarrow> y \<le> int n" by auto
  show "int n \<in> set (map int [1..<Suc n])" using assms by auto
qed

lemma sorted_numbered: "sorted_wrt (<) (map int [1..<Suc n])"
  by (simp add: sorted_wrt_map del: upt_Suc)

lemma distinct_numbered: "distinct (map int [1..<Suc n])"
  by (simp add: distinct_map)

text \<open>
  C4. In every state that additions and sweeps reach from an empty ledger, the record at
  position \<open>i\<close> (counting from 1) has the identifier \<open>i\<close>: identifiers are unique
  and increase along the ledger, the largest one is the number of insertions, and it is
  the identifier of the last record, the one from which the code derives the next
  identifier. An added expense therefore receives the largest identifier plus one, or 1
  in an empty ledger; for the occurrences of a sweep the same follows from C3 and the
  invariant.
\<close>

theorem reachable_identifiers:
  assumes "reachable tz st"
  shows "map id' (expenses st) = map int [1..<Suc (length (expenses st))]
     \<and> distinct (map id' (expenses st))
     \<and> sorted_wrt (<) (map id' (expenses st))
     \<and> (expenses st \<noteq> [] \<longrightarrow>
          Max (set (map id' (expenses st))) = int (length (expenses st)) \<and>
          id' (last (expenses st)) = Max (set (map id' (expenses st))))
     \<and> (\<forall>now f r st'. addExpense tz now f st = (r, st') \<longrightarrow> expenses st' \<noteq> expenses st \<longrightarrow>
          (\<exists>e. expenses st' = expenses st @ [e] \<and>
               id' e = (if expenses st = [] then 1
                        else Max (set (map id' (expenses st))) + 1)))"
proof -
  let ?l = "expenses st"
  have n: "map id' ?l = map int [1..<Suc (length ?l)]"
    by (rule reachable_numbered[OF assms])
  have d: "distinct (map id' ?l)" unfolding n by (rule distinct_numbered)
  have s: "sorted_wrt (<) (map id' ?l)" unfolding n by (rule sorted_numbered)
  have m: "?l \<noteq> [] \<longrightarrow> Max (set (map id' ?l)) = int (length ?l) \<and>
          id' (last ?l) = Max (set (map id' ?l))"
  proof
    assume ne: "?l \<noteq> []"
    then have "Max (set (map id' ?l)) = int (length ?l)"
      unfolding n by (intro Max_numbered) simp
    then show "Max (set (map id' ?l)) = int (length ?l) \<and> id' (last ?l) = Max (set (map id' ?l))"
      using numbered_last[OF n ne] by simp
  qed
  have a: "\<forall>now f r st'. addExpense tz now f st = (r, st') \<longrightarrow> expenses st' \<noteq> ?l \<longrightarrow>
          (\<exists>e. expenses st' = ?l @ [e] \<and>
               id' e = (if ?l = [] then 1 else Max (set (map id' ?l)) + 1))"
  proof (intro allI impI)
    fix now f r st'
    assume "addExpense tz now f st = (r, st')" "expenses st' \<noteq> ?l"
    with addExpense_cases[of tz now f st r st'] obtain e where
      "expenses st' = ?l @ [e]" "id' e = (if 0 < length ?l then id' (last ?l) + 1 else 1)"
      by blast
    then show "\<exists>e. expenses st' = ?l @ [e] \<and>
               id' e = (if ?l = [] then 1 else Max (set (map id' ?l)) + 1)"
      using m by auto
  qed
  show ?thesis using n d s m a by blast
qed

theorem reachable_identifiers_witness:
  "reachable tz_UTC \<lparr>expenses = gym1, budgets = [],
       effects = [SetItem_expenses [gym], BudgetOverview [], Notify (reminder gym),
                  SetItem_expenses gym1]\<rparr>
   \<and> map id' gym1 = map int [1..<Suc (length gym1)]
   \<and> distinct (map id' gym1) \<and> sorted_wrt (<) (map id' gym1)
   \<and> gym1 \<noteq> []
   \<and> Max (set (map id' gym1)) = int (length gym1)
   \<and> id' (last gym1) = Max (set (map id' gym1))"
proof -
  have r0: "reachable tz_UTC \<lparr>expenses = [], budgets = [], effects = []\<rparr>"
    by (rule reachable.empty_ledger) simp
  have r1: "reachable tz_UTC \<lparr>expenses = [gym], budgets = [],
      effects = [SetItem_expenses [gym], BudgetOverview []]\<rparr>"
    by (rule reachable.added[OF r0 add_gym])
  have sw: "migrateRecurring tz_UTC ''granted'' noon_2024_01_15
      \<lparr>expenses = [gym], budgets = [], effects = [SetItem_expenses [gym], BudgetOverview []]\<rparr>
     = (None, \<lparr>expenses = gym1, budgets = [],
       effects = [SetItem_expenses [gym], BudgetOverview [], Notify (reminder gym),
                  SetItem_expenses gym1]\<rparr>)"
    using sweep_gym_any[of "\<lparr>expenses = [gym], budgets = [],
        effects = [SetItem_expenses [gym], BudgetOverview []]\<rparr>"]
    by simp
  have r2: "reachable tz_UTC \<lparr>expenses = gym1, budgets = [],
       effects = [SetItem_expenses [gym], BudgetOverview [], Notify (reminder gym),
                  SetItem_expenses gym1]\<rparr>"
    by (rule reachable.swept[OF r1 sw])
  have ne: "gym1 \<noteq> []" by (simp add: gym1_def)
  note t = reachable_identifiers[OF r2, unfolded app.select_convs]
  note t1 = t[THEN conjunct1]
  note t2 = t[THEN conjunct2, THEN conjunct1]
  note t3 = t[THEN conjunct2, THEN conjunct2, THEN conjunct1]
  note t4 = t[THEN conjunct2, THEN conjunct2, THEN conjunct2, THEN conjunct1, THEN mp, OF ne]
  show ?thesis using r2 t1 t2 t3 ne t4 by blast
qed

lemma sweep_gym1_any:
  assumes "expenses st = gym1"
  shows "migrateRecurring tz_UTC ''granted'' noon_2024_01_15 st =
   (None, st\<lparr>expenses := gym2,
       effects := effects st @ [Notify (reminder (gym1 ! 0)), Notify (reminder (gym1 ! 1)),
         SetItem_expenses gym2]\<rparr>)"
  using assms
  by (simp add: migrateRecurring_def today_noon gym1_def gym2_def
    callback_push[where nd = "''2024-01-07''"] due_def next_0106 gym_fields notified_def)

lemma next_0115: "next_date_string tz_UTC ''2024-01-15'' (Some ''weekly'') = Inr ''2024-01-22''"
  by (simp add: next_date_string_value next_value_def parse_defs LocalTime_def UTC_def tz_UTC_def
      string_defs calendar_defs)

lemma rent_fields:
  "nextDate rent = Some ''2024-01-15''" "frequency rent = Some ''weekly''" "id' rent = 1"
  "recurring rent"
  by (simp_all add: rent_def)

lemma due_rent: "due ''2024-01-15'' rent"
  by (simp add: due_def rent_fields)

lemma sweep_rent:
  "migrateRecurring tz_UTC ''granted'' noon_2024_01_15
     \<lparr>expenses = [rent], budgets = [], effects = []\<rparr> =
   (None, \<lparr>expenses = rent1, budgets = [],
           effects = [Notify (reminder rent), SetItem_expenses rent1]\<rparr>)"
  by (simp add: migrateRecurring_def today_noon rent1_def Let_def
    callback_push[where nd = "''2024-01-22''"] due_rent next_0115 rent_fields notified_def)

text \<open>
  C1. A second sweep on the same day is not idempotent in general: the sweep advances a
  record by one period only, so a daily expense that was due ten days ago is due again
  after the first sweep, and so is the occurrence appended for it, which is itself a
  recurring record. The second sweep turns the two records into four.
\<close>

theorem sweep_twice_counterexample:
  "migrateRecurring tz_UTC ''granted'' noon_2024_01_15
       \<lparr>expenses = [gym], budgets = [], effects = []\<rparr>
     = (None, \<lparr>expenses = gym1, budgets = [],
               effects = [Notify (reminder gym), SetItem_expenses gym1]\<rparr>)
   \<and> expenses (snd (migrateRecurring tz_UTC ''granted'' noon_2024_01_15
        \<lparr>expenses = gym1, budgets = [],
         effects = [Notify (reminder gym), SetItem_expenses gym1]\<rparr>)) = gym2
   \<and> length gym1 = 2 \<and> length gym2 = 4"
  using sweep_gym_any[of "\<lparr>expenses = [gym], budgets = [], effects = []\<rparr>"]
    sweep_gym1_any[of "\<lparr>expenses = gym1, budgets = [],
         effects = [Notify (reminder gym), SetItem_expenses gym1]\<rparr>"]
  by (simp add: gym1_def gym2_def)

lemma not_due_after_sweep:
  assumes run: "migrateRecurring tz p now st = (None, st1)"
    and past: "\<forall>e\<in>set (expenses st). due (today_of now) e \<longrightarrow>
          (\<forall>nd. next_date_string tz (the (nextDate e)) (frequency e) = Inr nd \<longrightarrow>
                \<not> str_le nd (today_of now))"
    and x: "x \<in> set (expenses st1)"
  shows "\<not> due (today_of now) x"
proof -
  let ?l = "expenses st" and ?today = "today_of now"
  have adv: "\<not> str_le (advanced_date tz e) ?today" if "e \<in> set ?l" "due ?today e" for e
    using sweep_no_throw[OF run that] past that by blast
  from x sweep_success[OF run]
  consider "x \<in> set (map (advance tz ?today) ?l)"
    | "x \<in> set (occurrences tz ?today (id' (last ?l)) ?l)" by auto
  then show ?thesis
  proof cases
    case 1
    then obtain e where e: "e \<in> set ?l" "x = advance tz ?today e" by auto
    show ?thesis
    proof (cases "due ?today e")
      case True
      then show ?thesis using adv[OF e(1) True] by (simp add: e(2) advance_def due_def)
    next
      case False
      then show ?thesis by (simp add: e(2) advance_def)
    qed
  next
    case 2
    from occurrences_source[OF 2] obtain e where
      "e \<in> set ?l" "due ?today e" "nextDate x = Some (advanced_date tz e)" by blast
    then show ?thesis using adv[of e] by (simp add: due_def)
  qed
qed

text \<open>
  C1, amended. When the first sweep ends without an exception and the next due date
  computed for every due record lies after today, no record of the resulting ledger is
  due, and a second sweep on the same day appends nothing, changes no record and sends
  no reminder: it only writes the same ledger to storage again.
\<close>

theorem sweep_twice_when_advanced_past_today:
  assumes "migrateRecurring tz p now st = (None, st1)"
    and "\<forall>e\<in>set (expenses st). due (today_of now) e \<longrightarrow>
          (\<forall>nd. next_date_string tz (the (nextDate e)) (frequency e) = Inr nd \<longrightarrow>
                \<not> str_le nd (today_of now))"
  shows "migrateRecurring tz p now st1
           = (None, st1\<lparr>effects := effects st1 @ [SetItem_expenses (expenses st1)]\<rparr>)
       \<and> (\<forall>x\<in>set (expenses st1). \<not> due (today_of now) x)"
proof -
  have nd: "\<not> due (today_of now) x" if "x \<in> set (expenses st1)" for x
    by (rule not_due_after_sweep[OF assms that])
  then have "migrateRecurring tz p now st1
           = (None, st1\<lparr>effects := effects st1 @ [SetItem_expenses (expenses st1)]\<rparr>)"
    by (rule sweep_nothing_due)
  then show ?thesis using nd by blast
qed

theorem sweep_twice_when_advanced_past_today_witness:
  "migrateRecurring tz_UTC ''granted'' noon_2024_01_15
     \<lparr>expenses = [rent], budgets = [], effects = []\<rparr> =
   (None, \<lparr>expenses = rent1, budgets = [],
           effects = [Notify (reminder rent), SetItem_expenses rent1]\<rparr>)
   \<and> due (today_of noon_2024_01_15) rent
   \<and> next_date_string tz_UTC (the (nextDate rent)) (frequency rent) = Inr ''2024-01-22''
   \<and> \<not> str_le ''2024-01-22'' (today_of noon_2024_01_15)
   \<and> migrateRecurring tz_UTC ''granted'' noon_2024_01_15
       \<lparr>expenses = rent1, budgets = [],
        effects = [Notify (reminder rent), SetItem_expenses rent1]\<rparr>
     = (None, \<lparr>expenses = rent1, budgets = [],
        effects = [Notify (reminder rent), SetItem_expenses rent1, SetItem_expenses rent1]\<rparr>)"
proof -
  note run = sweep_rent
  have past: "\<forall>e\<in>set (expenses \<lparr>expenses = [rent], budgets = [], effects = []\<rparr>).
      due (today_of noon_2024_01_15) e \<longrightarrow>
          (\<forall>nd. next_date_string tz_UTC (the (nextDate e)) (frequency e) = Inr nd \<longrightarrow>
                \<not> str_le nd (today_of noon_2024_01_15))"
    by (simp add: today_noon rent_fields next_0115)
  note t = sweep_twice_when_advanced_past_today[OF run past, THEN conjunct1]
  have a: "due (today_of noon_2024_01_15) rent" by (simp add: today_noon due_rent)
  have b: "next_date_string tz_UTC (the (nextDate rent)) (frequency rent) = Inr ''2024-01-22''"
    by (simp add: rent_fields next_0115)
  have c: "\<not> str_le ''2024-01-22'' (today_of noon_2024_01_15)" by (simp add: today_noon)
  show ?thesis using run a b c t by simp
qed

text \<open>
  C5. The reminder is created for every record that the sweep finds due, not only for
  one due today: the code tests the permission and nothing else (lines 113 to 118, under
  the comment "Notify if due today"). With the permission granted, the sweep of
  15 January sends "Gym: $12.00 is due today." for the record whose next due date is
  5 January.
\<close>

theorem overdue_record_is_notified:
  "today_of noon_2024_01_15 = ''2024-01-15'' \<and> nextDate gym = Some ''2024-01-05''
   \<and> effects (snd (migrateRecurring tz_UTC ''granted'' noon_2024_01_15
        \<lparr>expenses = [gym], budgets = [], effects = []\<rparr>))
     = [Notify \<lparr>title = ''Expense Reminder'',
                body = [Text ''Gym'', Text '': $'', Fixed2 (Fin 12), Text '' is due today.'']\<rparr>,
        SetItem_expenses gym1]"
  using sweep_gym_any[of "\<lparr>expenses = [gym], budgets = [], effects = []\<rparr>"]
  by (simp add: today_noon gym_fields reminder_def gym_def)

lemma DaysInMonth_December: "DaysInMonth y 11 = 31"
  by (simp add: DaysInMonth_def MonthStart_def Let_def)

lemma MakeDay_rollover:
  assumes "0 \<le> m" "m \<le> 10"
  shows "MakeDay y m d = MakeDay y (m + 1) (d - DaysInMonth y m)"
proof -
  have a: "m div 12 = 0" "m mod 12 = m" "(m + 1) div 12 = 0" "(m + 1) mod 12 = m + 1"
    using assms by simp_all
  show ?thesis
    unfolding MakeDay_def Let_def a DaysInMonth_def by simp
qed

text \<open>
  The local fields after \<open>setMonth(getMonth() + 1)\<close>: the same day of the following
  month when that month has such a day, and otherwise the day that many days after the
  end of the following month.
\<close>

lemma next_month_fields:
  fixes lt :: int
  defines "Y \<equiv> YearFromTime lt + (MonthFromTime lt + 1) div 12"
    and "M \<equiv> (MonthFromTime lt + 1) mod 12"
    and "D \<equiv> DateFromTime lt"
  defines "lt' \<equiv> MakeDate (MakeDay (YearFromTime lt) (MonthFromTime lt + 1) (DateFromTime lt))
                    (TimeWithinDay lt)"
  shows "TimeWithinDay lt' = TimeWithinDay lt"
    and "D \<le> DaysInMonth Y M \<Longrightarrow>
           YearFromTime lt' = Y \<and> MonthFromTime lt' = M \<and> DateFromTime lt' = D"
    and "DaysInMonth Y M < D \<Longrightarrow>
           YearFromTime lt' = Y \<and> MonthFromTime lt' = M + 1 \<and>
           DateFromTime lt' = D - DaysInMonth Y M"
proof -
  show "TimeWithinDay lt' = TimeWithinDay lt"
    unfolding lt'_def by (rule TimeWithinDay_MakeDate)
  have M: "0 \<le> M" "M \<le> 11" unfolding M_def by simp_all
  have D: "1 \<le> D" "D \<le> 31"
    using DateFromTime_range[of lt] MonthFromTime_range[of lt]
      DaysInMonth_range[of "MonthFromTime lt" "YearFromTime lt"]
    unfolding D_def by linarith+
  have day: "Day lt' = MakeDay Y M D"
    unfolding lt'_def Day_MakeDate Y_def M_def D_def by (rule MakeDay_carry)
  show "YearFromTime lt' = Y \<and> MonthFromTime lt' = M \<and> DateFromTime lt' = D"
    if "D \<le> DaysInMonth Y M"
    by (rule fields_of_MakeDay[OF M D(1) that day])
  show "YearFromTime lt' = Y \<and> MonthFromTime lt' = M + 1 \<and> DateFromTime lt' = D - DaysInMonth Y M"
    if over: "DaysInMonth Y M < D"
  proof -
    have "M \<noteq> 11" using over D(2) DaysInMonth_December[of Y] by auto
    then have M10: "M \<le> 10" using M by simp
    have day': "Day lt' = MakeDay Y (M + 1) (D - DaysInMonth Y M)"
      unfolding day by (rule MakeDay_rollover[OF M(1) M10])
    have r: "28 \<le> DaysInMonth Y M" "28 \<le> DaysInMonth Y (M + 1)"
      using DaysInMonth_range[of M Y] DaysInMonth_range[of "M + 1" Y] M M10 by simp_all
    show ?thesis
      by (rule fields_of_MakeDay[OF _ _ _ _ day']) (use M M10 over D r in simp_all)
  qed
qed

section \<open>Properties of \<^verbatim>\<open>computeNextDate\<close>\<close>

text \<open>
  C8. \<^verbatim>\<open>computeNextDate\<close> returns a new Date object and leaves every existing one, the
  argument included, as it was. For a valid date its value is: for \<^verbatim>\<open>'daily'\<close> the
  local wall-clock time one calendar day later at the same time of day, for
  \<^verbatim>\<open>'weekly'\<close> seven calendar days later, for \<^verbatim>\<open>'monthly'\<close> the same day of the month
  in the following calendar month at the same time of day or, when that month is
  shorter, as many days after its end as the day exceeds its length (the rollover of
  the Date library), each read back as a UTC instant; for any other frequency the value
  of the argument.
\<close>

theorem computeNextDate_next_occurrence:
  assumes "dateObj < length h" and "h ! dateObj = Some t"
    and "computeNextDate tz h dateObj freq = (h', next)"
  shows "next = length h \<and> length h' = Suc (length h) \<and> take (length h) h' = h
     \<and> h' ! dateObj = Some t
     \<and> (freq = Some ''daily'' \<longrightarrow>
          h' ! next = TimeClip (UTC tz (MakeDate (Day (LocalTime tz t) + 1)
                                   (TimeWithinDay (LocalTime tz t)))))
     \<and> (freq = Some ''weekly'' \<longrightarrow>
          h' ! next = TimeClip (UTC tz (MakeDate (Day (LocalTime tz t) + 7)
                                   (TimeWithinDay (LocalTime tz t)))))
     \<and> (freq = Some ''monthly'' \<longrightarrow>
          (\<exists>lt'. h' ! next = TimeClip (UTC tz lt') \<and>
             TimeWithinDay lt' = TimeWithinDay (LocalTime tz t) \<and>
             (let Y = YearFromTime (LocalTime tz t) + (MonthFromTime (LocalTime tz t) + 1) div 12;
                  M = (MonthFromTime (LocalTime tz t) + 1) mod 12;
                  D = DateFromTime (LocalTime tz t)
              in if D \<le> DaysInMonth Y M
                 then YearFromTime lt' = Y \<and> MonthFromTime lt' = M \<and> DateFromTime lt' = D
                 else YearFromTime lt' = Y \<and> MonthFromTime lt' = M + 1 \<and>
                      DateFromTime lt' = D - DaysInMonth Y M)))
     \<and> (freq \<noteq> Some ''daily'' \<and> freq \<noteq> Some ''weekly'' \<and>
          freq \<noteq> Some ''monthly'' \<longrightarrow> h' ! next = Some t)"
proof -
  let ?lt = "LocalTime tz t"
  have v: "h' = h @ [next_value tz (Some t) freq]" "next = length h"
    using assms(3) by (simp_all add: computeNextDate_value assms(2))
  have a: "next = length h \<and> length h' = Suc (length h) \<and> take (length h) h' = h"
    by (simp add: v)
  have b: "h' ! dateObj = Some t" using assms(1,2) by (simp add: v nth_append)
  have n: "h' ! next = next_value tz (Some t) freq" by (simp add: v)
  have c: "freq = Some ''daily'' \<longrightarrow>
          h' ! next = TimeClip (UTC tz (MakeDate (Day ?lt + 1) (TimeWithinDay ?lt)))"
    by (simp add: n next_value_def Let_def)
  have d: "freq = Some ''weekly'' \<longrightarrow>
          h' ! next = TimeClip (UTC tz (MakeDate (Day ?lt + 7) (TimeWithinDay ?lt)))"
    by (simp add: n next_value_def Let_def)
  have e: "freq = Some ''monthly'' \<longrightarrow>
          (\<exists>lt'. h' ! next = TimeClip (UTC tz lt') \<and>
             TimeWithinDay lt' = TimeWithinDay ?lt \<and>
             (let Y = YearFromTime ?lt + (MonthFromTime ?lt + 1) div 12;
                  M = (MonthFromTime ?lt + 1) mod 12;
                  D = DateFromTime ?lt
              in if D \<le> DaysInMonth Y M
                 then YearFromTime lt' = Y \<and> MonthFromTime lt' = M \<and> DateFromTime lt' = D
                 else YearFromTime lt' = Y \<and> MonthFromTime lt' = M + 1 \<and>
                      DateFromTime lt' = D - DaysInMonth Y M))"
  proof
    assume f: "freq = Some ''monthly''"
    let ?lt' = "MakeDate (MakeDay (YearFromTime ?lt) (MonthFromTime ?lt + 1) (DateFromTime ?lt))
                    (TimeWithinDay ?lt)"
    have "h' ! next = TimeClip (UTC tz ?lt')" by (simp add: n next_value_def f Let_def)
    then show "\<exists>lt'. h' ! next = TimeClip (UTC tz lt') \<and>
             TimeWithinDay lt' = TimeWithinDay ?lt \<and>
             (let Y = YearFromTime ?lt + (MonthFromTime ?lt + 1) div 12;
                  M = (MonthFromTime ?lt + 1) mod 12;
                  D = DateFromTime ?lt
              in if D \<le> DaysInMonth Y M
                 then YearFromTime lt' = Y \<and> MonthFromTime lt' = M \<and> DateFromTime lt' = D
                 else YearFromTime lt' = Y \<and> MonthFromTime lt' = M + 1 \<and>
                      DateFromTime lt' = D - DaysInMonth Y M)"
      using next_month_fields[of ?lt]
      by (intro exI[of _ ?lt']) (simp add: Let_def)
  qed
  have g: "freq \<noteq> Some ''daily'' \<and> freq \<noteq> Some ''weekly'' \<and>
          freq \<noteq> Some ''monthly'' \<longrightarrow> h' ! next = Some t"
    by (simp add: n next_value_def Let_def)
  show ?thesis using a b c d e g by blast
qed

text \<open>The witness starts from 2024-01-31T00:00:00Z on a host on UTC.\<close>

lemma fields_jan31:
  "YearFromTime 1706659200000 = 2024" "MonthFromTime 1706659200000 = 0"
  "DateFromTime 1706659200000 = 31" "Day 1706659200000 = 19753"
  "TimeWithinDay 1706659200000 = 0"
  by (simp_all add: calendar_defs)

lemma compute_daily_jan31:
  "computeNextDate tz_UTC [Some 1706659200000] 0 (Some ''daily'')
     = ([Some 1706659200000, Some 1706745600000], 1)"
  by (simp add: computeNextDate_value next_value_def LocalTime_def UTC_def tz_UTC_def
      fields_jan31 MakeDate_def msPerDay_def TimeClip_def)

lemma compute_monthly_jan31:
  "computeNextDate tz_UTC [Some 1706659200000] 0 (Some ''monthly'')
     = ([Some 1706659200000, Some 1709337600000], 1)"
  by (simp add: computeNextDate_value next_value_def LocalTime_def UTC_def tz_UTC_def
      fields_jan31 MakeDate_def MakeDay_def DayFromYear_def DaysInYear_def MonthStart_def
      msPerDay_def TimeClip_def)

lemma compute_yearly_jan31:
  "computeNextDate tz_UTC [Some 1706659200000] 0 (Some ''yearly'')
     = ([Some 1706659200000, Some 1706659200000], 1)"
  by (simp add: computeNextDate_value next_value_def)

theorem computeNextDate_next_occurrence_witness:
  "computeNextDate tz_UTC [Some 1706659200000] 0 (Some ''daily'')
     = ([Some 1706659200000, Some 1706745600000], 1)
   \<and> [Some 1706659200000, Some 1706745600000] ! 0 = Some (1706659200000 :: int)
   \<and> Some 1706745600000
       = TimeClip (UTC tz_UTC (MakeDate (Day (LocalTime tz_UTC 1706659200000) + 1)
                                 (TimeWithinDay (LocalTime tz_UTC 1706659200000))))
   \<and> computeNextDate tz_UTC [Some 1706659200000] 0 (Some ''monthly'')
     = ([Some 1706659200000, Some 1709337600000], 1)
   \<and> DaysInMonth 2024 1 = 29
   \<and> YearFromTime 1709337600000 = 2024 \<and> MonthFromTime 1709337600000 = 2
   \<and> DateFromTime 1709337600000 = 2
   \<and> computeNextDate tz_UTC [Some 1706659200000] 0 (Some ''yearly'')
     = ([Some 1706659200000, Some 1706659200000], 1)"
proof -
  have i: "0 < length [Some (1706659200000 :: int)]" by simp
  have v: "[Some (1706659200000 :: int)] ! 0 = Some 1706659200000" by simp
  note d = computeNextDate_next_occurrence[OF i v compute_daily_jan31]
  have d1: "[Some 1706659200000, Some 1706745600000] ! 0 = Some (1706659200000 :: int)"
    using d by blast
  have d2: "Some 1706745600000
       = TimeClip (UTC tz_UTC (MakeDate (Day (LocalTime tz_UTC 1706659200000) + 1)
                                 (TimeWithinDay (LocalTime tz_UTC 1706659200000))))"
    using d by simp
  note m = computeNextDate_next_occurrence[OF i v compute_monthly_jan31]
  have dim: "DaysInMonth 2024 1 = 29"
    by (simp add: DaysInMonth_def DaysInYear_def MonthStart_def)
  from m obtain lt' where lt': "Some 1709337600000 = TimeClip (UTC tz_UTC lt')"
    and f: "(let Y = YearFromTime (LocalTime tz_UTC 1706659200000)
                   + (MonthFromTime (LocalTime tz_UTC 1706659200000) + 1) div 12;
                  M = (MonthFromTime (LocalTime tz_UTC 1706659200000) + 1) mod 12;
                  D = DateFromTime (LocalTime tz_UTC 1706659200000)
              in if D \<le> DaysInMonth Y M
                 then YearFromTime lt' = Y \<and> MonthFromTime lt' = M \<and> DateFromTime lt' = D
                 else YearFromTime lt' = Y \<and> MonthFromTime lt' = M + 1 \<and>
                      DateFromTime lt' = D - DaysInMonth Y M)"
    by auto
  have "lt' = 1709337600000"
    using lt' by (simp add: TimeClip_def UTC_def tz_UTC_def split: if_splits)
  then have m1: "YearFromTime 1709337600000 = 2024 \<and> MonthFromTime 1709337600000 = 2
      \<and> DateFromTime 1709337600000 = 2"
    using f by (simp add: LocalTime_def tz_UTC_def fields_jan31 dim Let_def)
  show ?thesis
    using compute_daily_jan31 d1 d2 compute_monthly_jan31 dim m1 compute_yearly_jan31
    by blast
qed

lemma parse_0310: "Date_parse ''2024-03-10'' = Some 1710028800000"
  by (simp add: parse_defs calendar_defs)

lemma local_0310:
  "LocalTime tz_New_York 1710028800000 = 1710010800000"
  by (simp add: LocalTime_def tz_New_York_def)

lemma fields_0309_19h:
  "Day 1710010800000 = 19791" "TimeWithinDay 1710010800000 = 68400000"
  by (simp_all add: calendar_defs)

lemma next_0310_New_York:
  "next_date_string tz_New_York ''2024-03-10'' (Some ''daily'') = Inr ''2024-03-10''"
  by (simp add: next_date_string_value next_value_def parse_0310 local_0310 fields_0309_19h
      MakeDate_def msPerDay_def UTC_def tz_New_York_def TimeClip_def string_defs calendar_defs)

section \<open>Properties of \<^verbatim>\<open>addExpense\<close>\<close>

text \<open>
  C10. The next due date of a new recurring expense is not always after the entered date.
  \<^verbatim>\<open>new Date(date)\<close> reads the date as midnight UTC, \<^verbatim>\<open>setDate\<close> moves the local
  wall-clock time, and \<^verbatim>\<open>toISOString\<close> prints the UTC date again. On a host on New York
  time, 2024-03-10 is 19:00 of 9 March local time; one local day later is 19:00 of
  10 March, by then daylight saving time, which is 23:00 UTC of 10 March: a daily expense
  entered for 2024-03-10 gets the next due date 2024-03-10.
\<close>

theorem next_date_on_entry_date:
  "addExpense tz_New_York now spring_form \<lparr>expenses = [], budgets = [], effects = []\<rparr>
     = (None, \<lparr>expenses = [gym\<lparr>date := ''2024-03-10'', nextDate := Some ''2024-03-10''\<rparr>],
               budgets = [],
               effects = [SetItem_expenses
                 [gym\<lparr>date := ''2024-03-10'', nextDate := Some ''2024-03-10''\<rparr>],
                 BudgetOverview []]\<rparr>)
   \<and> f_date spring_form = ''2024-03-10'' \<and> f_recurrence spring_form = ''daily''"
  by (simp add: addExpense_def spring_form_def next_0310_New_York gym_def Let_def
      updateBudgetOverview_def budget_items_none)

section \<open>The sweep after a change of the clocks\<close>

lemma today_0315: "today_of noon_2024_03_15 = ''2024-03-15''"
  by (simp add: today_of_def substr_0_10_def noon_2024_03_15_def string_defs calendar_defs)

lemma spring_gym_fields:
  "nextDate spring_gym = Some ''2024-03-10''" "frequency spring_gym = Some ''daily''"
  "id' spring_gym = 1" "recurring spring_gym" "date spring_gym = ''2024-03-10''"
  by (simp_all add: spring_gym_def)

lemma due_spring_gym: "due ''2024-03-15'' spring_gym"
  by (simp add: due_def spring_gym_fields)

lemma next_0310_UTC:
  "next_date_string tz_UTC ''2024-03-10'' (Some ''daily'') = Inr ''2024-03-11''"
  by (simp add: next_date_string_value next_value_def parse_defs LocalTime_def UTC_def tz_UTC_def
      string_defs calendar_defs)

lemma spring_gym_clone:
  "spring_gym\<lparr>id' := 2, date := ''2024-03-10'', nextDate := Some ''2024-03-10''\<rparr>
     = spring_gym\<lparr>id' := 2\<rparr>"
  "spring_gym\<lparr>nextDate := Some ''2024-03-10''\<rparr> = spring_gym"
  by (simp_all add: spring_gym_def)

lemma spring_gym_clone_UTC:
  "spring_gym\<lparr>id' := 2, date := ''2024-03-10'', nextDate := Some ''2024-03-11''\<rparr>
     = spring_gym\<lparr>id' := 2, nextDate := Some ''2024-03-11''\<rparr>"
  by (simp add: spring_gym_def)

lemma spring_gym_entered:
  "addExpense tz_New_York now spring_form \<lparr>expenses = [], budgets = [], effects = []\<rparr>
     = (None, \<lparr>expenses = [spring_gym], budgets = [],
               effects = [SetItem_expenses [spring_gym], BudgetOverview []]\<rparr>)"
  by (simp add: addExpense_def spring_form_def next_0310_New_York spring_gym_def Let_def
      updateBudgetOverview_def budget_items_none)

lemma callback_spring_gym:
  "forEach_callback tz_New_York ''default'' ''2024-03-15'' 0
       \<lparr>expenses = [spring_gym], budgets = [], effects = []\<rparr>
   = (None, \<lparr>expenses = [spring_gym, spring_gym\<lparr>id' := 2\<rparr>], budgets = [], effects = []\<rparr>)"
  by (simp add: callback_push[where nd = "''2024-03-10''"] due_spring_gym next_0310_New_York
      spring_gym_fields notified_def spring_gym_clone)

lemma sweep_spring_gym:
  "migrateRecurring tz_New_York ''default'' noon_2024_03_15
       \<lparr>expenses = [spring_gym], budgets = [], effects = []\<rparr>
   = (None, \<lparr>expenses = [spring_gym, spring_gym\<lparr>id' := 2\<rparr>], budgets = [],
             effects = [SetItem_expenses [spring_gym, spring_gym\<lparr>id' := 2\<rparr>]]\<rparr>)"
  by (simp add: migrateRecurring_def today_0315 callback_spring_gym)

lemma callback_spring_gym_UTC:
  "forEach_callback tz_UTC ''default'' ''2024-03-15'' 0
       \<lparr>expenses = [spring_gym], budgets = [], effects = []\<rparr>
   = (None, \<lparr>expenses = [spring_gym\<lparr>nextDate := Some ''2024-03-11''\<rparr>,
                         spring_gym\<lparr>id' := 2, nextDate := Some ''2024-03-11''\<rparr>],
             budgets = [], effects = []\<rparr>)"
  by (simp add: callback_push[where nd = "''2024-03-11''"] due_spring_gym next_0310_UTC
      spring_gym_fields notified_def spring_gym_clone_UTC)

lemma sweep_spring_gym_UTC:
  "migrateRecurring tz_UTC ''default'' noon_2024_03_15
       \<lparr>expenses = [spring_gym], budgets = [], effects = []\<rparr>
   = (None, \<lparr>expenses = [spring_gym\<lparr>nextDate := Some ''2024-03-11''\<rparr>,
                         spring_gym\<lparr>id' := 2, nextDate := Some ''2024-03-11''\<rparr>],
             budgets = [],
             effects = [SetItem_expenses [spring_gym\<lparr>nextDate := Some ''2024-03-11''\<rparr>,
                         spring_gym\<lparr>id' := 2, nextDate := Some ''2024-03-11''\<rparr>]]\<rparr>)"
  by (simp add: migrateRecurring_def today_0315 callback_spring_gym_UTC)

text \<open>
  C3. The next due date that the sweep gives to the occurrence and to its source is not
  always the previous one advanced by the frequency. The sweep computes it like
  \<^verbatim>\<open>addExpense\<close> does: \<^verbatim>\<open>new Date(exp.nextDate)\<close> reads the date as midnight UTC,
  \<^verbatim>\<open>setDate\<close> moves the local wall-clock time, and \<^verbatim>\<open>toISOString\<close> prints the UTC
  date. On a host on New York time the daily record entered for 2024-03-10 is stored
  with the next due date 2024-03-10; the sweep of 15 March appends an occurrence dated
  2024-03-10 whose next due date is 2024-03-10 again, and leaves the source with the
  next due date 2024-03-10, still due. On a host on UTC the same sweep advances both to
  2024-03-11.
\<close>

theorem sweep_leaves_next_date_in_place:
  "addExpense tz_New_York now spring_form \<lparr>expenses = [], budgets = [], effects = []\<rparr>
     = (None, \<lparr>expenses = [spring_gym], budgets = [],
               effects = [SetItem_expenses [spring_gym], BudgetOverview []]\<rparr>)
   \<and> frequency spring_gym = Some ''daily'' \<and> nextDate spring_gym = Some ''2024-03-10''
   \<and> today_of noon_2024_03_15 = ''2024-03-15''
   \<and> migrateRecurring tz_New_York ''default'' noon_2024_03_15
        \<lparr>expenses = [spring_gym], budgets = [], effects = []\<rparr>
     = (None, \<lparr>expenses = [spring_gym, spring_gym\<lparr>id' := 2\<rparr>], budgets = [],
               effects = [SetItem_expenses [spring_gym, spring_gym\<lparr>id' := 2\<rparr>]]\<rparr>)
   \<and> nextDate (spring_gym\<lparr>id' := 2\<rparr>) = Some ''2024-03-10''
   \<and> due (today_of noon_2024_03_15) spring_gym
   \<and> migrateRecurring tz_UTC ''default'' noon_2024_03_15
        \<lparr>expenses = [spring_gym], budgets = [], effects = []\<rparr>
     = (None, \<lparr>expenses = [spring_gym\<lparr>nextDate := Some ''2024-03-11''\<rparr>,
                           spring_gym\<lparr>id' := 2, nextDate := Some ''2024-03-11''\<rparr>],
               budgets = [],
               effects = [SetItem_expenses [spring_gym\<lparr>nextDate := Some ''2024-03-11''\<rparr>,
                           spring_gym\<lparr>id' := 2, nextDate := Some ''2024-03-11''\<rparr>]]\<rparr>)"
  using spring_gym_entered[of now] sweep_spring_gym sweep_spring_gym_UTC
  by (simp add: spring_gym_fields today_0315 due_spring_gym)

section \<open>The budget overview\<close>

lemma sum_month_skip:
  "\<not> month_test tz cm cy e \<Longrightarrow> sum_month tz cm cy m e = m"
  by (auto simp: sum_month_def month_test_def new_Date_def)

lemma sum_month_add:
  assumes "month_test tz cm cy e" "all_finite m" "amount e = Fin a"
  shows "sum_month tz cm cy m e
       = m(property_key (category e) \<mapsto> Fin (total_of m (property_key (category e)) + a))"
proof (cases "m (property_key (category e))")
  case None
  then show ?thesis
    using assms by (simp add: sum_month_def month_test_def new_Date_def total_of_def Let_def)
next
  case (Some v)
  then obtain r where r: "v = Fin r" using assms(2) by (auto simp: all_finite_def)
  show ?thesis
    using assms Some r
    by (auto simp: sum_month_def month_test_def new_Date_def total_of_def Let_def
        finite_amount_def)
qed

lemma sum_month_total:
  assumes "all_finite m" "amount e = Fin a"
  shows "all_finite (sum_month tz cm cy m e) \<and>
         total_of (sum_month tz cm cy m e) k
           = total_of m k + (if month_test tz cm cy e \<and> property_key (category e) = k
                             then a else 0)"
proof (cases "month_test tz cm cy e")
  case False
  then show ?thesis using assms by (simp add: sum_month_skip)
next
  case True
  show ?thesis
    unfolding sum_month_add[OF True assms]
    using assms(1) True by (auto simp: all_finite_def total_of_def finite_amount_def)
qed

lemma foldl_sum_month:
  assumes "all_finite m" "\<forall>e\<in>set es. \<exists>a. amount e = Fin a"
  shows "all_finite (foldl (sum_month tz cm cy) m es) \<and>
         total_of (foldl (sum_month tz cm cy) m es) k
           = total_of m k + sum_list (map (\<lambda>e. finite_amount (amount e))
               (filter (\<lambda>e. month_test tz cm cy e \<and> property_key (category e) = k) es))"
  using assms
proof (induction es arbitrary: m)
  case Nil
  then show ?case by simp
next
  case (Cons e es)
  then obtain a where a: "amount e = Fin a" by auto
  note s = sum_month_total[OF Cons.prems(1) a, of tz cm cy k]
  have "all_finite (sum_month tz cm cy m e)" using s by simp
  from Cons.IH[OF this] Cons.prems(2) s a show ?case
    by (auto simp: finite_amount_def)
qed

lemma month_test_current:
  "month_test tz (getMonth tz [Some now] 0) (getFullYear tz [Some now] 0) e
     = in_current_month tz now e"
  by (simp add: month_test_def in_current_month_def new_Date_def)

lemma current_month_totals:
  assumes "\<forall>e\<in>set es. \<exists>a. amount e = Fin a"
  shows "all_finite (foldl (sum_month tz (getMonth tz [Some now] 0)
            (getFullYear tz [Some now] 0)) Map.empty es)"
    and "total_of (foldl (sum_month tz (getMonth tz [Some now] 0)
            (getFullYear tz [Some now] 0)) Map.empty es) k = month_total tz now es k"
proof -
  have e: "all_finite Map.empty" by (simp add: all_finite_def)
  note f = foldl_sum_month[OF e assms(1), of tz "getMonth tz [Some now] 0"
      "getFullYear tz [Some now] 0" k]
  show "all_finite (foldl (sum_month tz (getMonth tz [Some now] 0)
            (getFullYear tz [Some now] 0)) Map.empty es)" using f by simp
  show "total_of (foldl (sum_month tz (getMonth tz [Some now] 0)
            (getFullYear tz [Some now] 0)) Map.empty es) k = month_total tz now es k"
    using f by (simp add: month_total_def month_test_current total_of_def)
qed

lemma budget_items_map:
  "budget_items tz now bs es
     = map (budget_progress (foldl (sum_month tz (getMonth tz [Some now] 0)
               (getFullYear tz [Some now] 0)) Map.empty es)) bs"
  by (simp add: budget_items_def new_Date_def)

lemma spent_total:
  assumes "all_finite m"
  shows "(case m c of None \<Rightarrow> Fin 0 | Some v \<Rightarrow> if truthy v then v else Fin 0)
           = Fin (total_of m c)"
proof (cases "m c")
  case None
  then show ?thesis by (simp add: total_of_def)
next
  case (Some v)
  then obtain r where "v = Fin r" using assms by (auto simp: all_finite_def)
  then show ?thesis using Some by (simp add: total_of_def finite_amount_def)
qed

lemma budget_progress_finite:
  assumes "all_finite m" "b \<noteq> 0"
  shows "budget_progress m (c, Fin b) =
     \<lparr>item_category = c, budgetAmount = Fin b, spent = Fin (total_of m c),
      remaining = Fin (b - total_of m c),
      percentage = Fin (min 100 (100 * total_of m c / b)),
      statusClass = (if 90 \<le> min 100 (100 * total_of m c / b) then ''danger''
                     else if 75 \<le> min 100 (100 * total_of m c / b) then ''warning''
                     else []),
      budget_alert = (90 \<le> min 100 (100 * total_of m c / b))\<rparr>"
proof -
  let ?x = "total_of m c / b * 100"
  have p: "Math_min (js_mul (js_div (Fin (total_of m c)) (Fin b)) (Fin 100)) (Fin 100)
         = Fin (min 100 (100 * total_of m c / b))"
  proof -
    have 1: "js_div (Fin (total_of m c)) (Fin b) = Fin (total_of m c / b)"
      using assms(2) by simp
    have 2: "js_mul (Fin (total_of m c / b)) (Fin 100) = Fin (100 * total_of m c / b)"
      by (simp add: field_simps)
    have 3: "Math_min (Fin y) (Fin 100) = Fin (min 100 y)" for y :: real
      by (simp add: min_def)
    show ?thesis by (simp only: 1 2 3)
  qed
  show ?thesis
    unfolding budget_progress_def Let_def fst_conv snd_conv spent_total[OF assms(1)] p
    by (simp add: js_sub_def)
qed

lemma budget_progress_zero:
  assumes "all_finite m"
  shows "budget_progress m (c, Fin 0) =
     \<lparr>item_category = c, budgetAmount = Fin 0, spent = Fin (total_of m c),
      remaining = Fin (- total_of m c),
      percentage = (if 0 < total_of m c then Fin 100
                    else if total_of m c = 0 then NaN else NegInf),
      statusClass = (if 0 < total_of m c then ''danger'' else []),
      budget_alert = (0 < total_of m c)\<rparr>"
  unfolding budget_progress_def Let_def fst_conv snd_conv spent_total[OF assms(1)]
  by (simp add: js_sub_def signed_inf_def)

lemma budget_item_finite:
  assumes "\<forall>e\<in>set es. \<exists>a. amount e = Fin a" "i < length bs" "bs ! i = (c, Fin b)" "b \<noteq> 0"
  shows "budget_items tz now bs es ! i =
     \<lparr>item_category = c, budgetAmount = Fin b, spent = Fin (month_total tz now es c),
      remaining = Fin (b - month_total tz now es c),
      percentage = Fin (min 100 (100 * month_total tz now es c / b)),
      statusClass = (if 90 \<le> min 100 (100 * month_total tz now es c / b) then ''danger''
                     else if 75 \<le> min 100 (100 * month_total tz now es c / b) then ''warning''
                     else []),
      budget_alert = (90 \<le> min 100 (100 * month_total tz now es c / b))\<rparr>"
  using assms(2,3)
  by (simp add: budget_items_map budget_progress_finite[OF current_month_totals(1)[OF assms(1)] assms(4)]
      current_month_totals(2)[OF assms(1)])

lemma budget_item_zero:
  assumes "\<forall>e\<in>set es. \<exists>a. amount e = Fin a" "i < length bs" "bs ! i = (c, Fin 0)"
  shows "budget_items tz now bs es ! i =
     \<lparr>item_category = c, budgetAmount = Fin 0, spent = Fin (month_total tz now es c),
      remaining = Fin (- month_total tz now es c),
      percentage = (if 0 < month_total tz now es c then Fin 100
                    else if month_total tz now es c = 0 then NaN else NegInf),
      statusClass = (if 0 < month_total tz now es c then ''danger'' else []),
      budget_alert = (0 < month_total tz now es c)\<rparr>"
  using assms(2,3)
  by (simp add: budget_items_map budget_progress_zero[OF current_month_totals(1)[OF assms(1)]]
      current_month_totals(2)[OF assms(1)])

lemma lunch_fields:
  "date (lunch a) = ''2024-01-10''" "category (lunch a) = Some ''Food & Dining''"
  "amount (lunch a) = Fin a"
  by (simp_all add: lunch_def)

lemma parse_0110: "Date_parse ''2024-01-10'' = Some 1704844800000"
  by (simp add: parse_defs calendar_defs)

lemma fields_0110: "MonthFromTime 1704844800000 = 0" "YearFromTime 1704844800000 = 2024"
  by (simp_all add: calendar_defs)

lemma fields_noon: "MonthFromTime noon_2024_01_15 = 0" "YearFromTime noon_2024_01_15 = 2024"
  by (simp_all add: noon_2024_01_15_def calendar_defs)

lemma in_month_lunch: "in_current_month tz_UTC noon_2024_01_15 (lunch a)"
  by (simp add: in_current_month_def new_Date_def getMonth_def getFullYear_def lunch_fields
      parse_0110 LocalTime_def tz_UTC_def fields_0110 fields_noon)

lemma total_lunch: "month_total tz_UTC noon_2024_01_15 [lunch a] ''Food & Dining'' = a"
  by (simp add: month_total_def in_month_lunch lunch_fields property_key_def finite_amount_def)

lemma new_year_lunch_fields:
  "date new_year_lunch = ''2024-01-01''" "category new_year_lunch = Some ''Food & Dining''"
  "amount new_year_lunch = Fin 50"
  by (simp_all add: new_year_lunch_def)

lemma parse_0101: "Date_parse ''2024-01-01'' = Some 1704067200000"
  by (simp add: parse_defs calendar_defs)

lemma fields_0101: "MonthFromTime 1704067200000 = 0" "YearFromTime 1704067200000 = 2024"
  by (simp_all add: calendar_defs)

lemma local_0101_New_York: "LocalTime tz_New_York 1704067200000 = 1704049200000"
  by (simp add: LocalTime_def tz_New_York_def)

lemma fields_1231_19h: "MonthFromTime 1704049200000 = 11" "YearFromTime 1704049200000 = 2023"
  by (simp_all add: calendar_defs)

lemma local_noon_New_York: "LocalTime tz_New_York noon_2024_01_15 = 1705302000000"
  by (simp add: LocalTime_def tz_New_York_def noon_2024_01_15_def)

lemma fields_0115_7h: "MonthFromTime 1705302000000 = 0" "YearFromTime 1705302000000 = 2024"
  by (simp_all add: calendar_defs)

lemma now_New_York:
  "getMonth tz_New_York [Some noon_2024_01_15] 0 = Some 0"
  "getFullYear tz_New_York [Some noon_2024_01_15] 0 = Some 2024"
  by (simp_all add: getMonth_def getFullYear_def local_noon_New_York fields_0115_7h)

lemma new_year_lunch_New_York:
  "getMonth tz_New_York [Date_parse (date new_year_lunch)] 0 = Some 11"
  "getFullYear tz_New_York [Date_parse (date new_year_lunch)] 0 = Some 2023"
  by (simp_all add: getMonth_def getFullYear_def new_year_lunch_fields parse_0101
      local_0101_New_York fields_1231_19h)

lemma overview_new_year_New_York:
  "budget_items tz_New_York noon_2024_01_15 [(''Food & Dining'', Fin 100)] [new_year_lunch]
     = [\<lparr>item_category = ''Food & Dining'', budgetAmount = Fin 100, spent = Fin 0,
         remaining = Fin 100, percentage = Fin 0, statusClass = [], budget_alert = False\<rparr>]"
proof -
  have "\<not> month_test tz_New_York (Some 0) (Some 2024) new_year_lunch"
    by (simp add: month_test_def new_year_lunch_New_York)
  then have "sum_month tz_New_York (Some 0) (Some 2024) Map.empty new_year_lunch = Map.empty"
    by (rule sum_month_skip)
  then show ?thesis
    by (simp add: budget_items_map now_New_York budget_progress_def js_sub_def Let_def)
qed

lemma in_month_new_year_UTC: "in_current_month tz_UTC noon_2024_01_15 new_year_lunch"
  by (simp add: in_current_month_def new_Date_def getMonth_def getFullYear_def
      new_year_lunch_fields parse_0101 LocalTime_def tz_UTC_def fields_0101 fields_noon)

lemma overview_new_year_UTC:
  "budget_items tz_UTC noon_2024_01_15 [(''Food & Dining'', Fin 100)] [new_year_lunch]
     = [\<lparr>item_category = ''Food & Dining'', budgetAmount = Fin 100, spent = Fin 50,
         remaining = Fin 50, percentage = Fin 50, statusClass = [], budget_alert = False\<rparr>]"
proof -
  have f: "\<forall>e\<in>set [new_year_lunch]. \<exists>a. amount e = Fin a"
    by (simp add: new_year_lunch_fields)
  have t: "month_total tz_UTC noon_2024_01_15 [new_year_lunch] ''Food & Dining'' = 50"
    by (simp add: month_total_def new_year_lunch_fields property_key_def
        in_month_new_year_UTC finite_amount_def)
  have l: "length (budget_items tz_UTC noon_2024_01_15 [(''Food & Dining'', Fin 100)]
             [new_year_lunch]) = 1"
    by (simp add: budget_items_map)
  have "budget_items tz_UTC noon_2024_01_15 [(''Food & Dining'', Fin 100)] [new_year_lunch] ! 0
     = \<lparr>item_category = ''Food & Dining'', budgetAmount = Fin 100, spent = Fin 50,
         remaining = Fin 50, percentage = Fin 50, statusClass = [], budget_alert = False\<rparr>"
    using budget_item_finite[OF f, of 0 "[(''Food & Dining'', Fin 100)]" "''Food & Dining''" 100
        tz_UTC noon_2024_01_15]
    by (simp add: t)
  then show ?thesis using l
    by (cases "budget_items tz_UTC noon_2024_01_15 [(''Food & Dining'', Fin 100)]
          [new_year_lunch]") simp_all
qed

text \<open>
  C6. The amount shown as spent is not always the sum of the category's amounts of the
  current month. The month test (line 624) reads \<^verbatim>\<open>new Date(expense.date)\<close>, which is
  midnight UTC of the date, through \<^verbatim>\<open>getMonth\<close> and \<^verbatim>\<open>getFullYear\<close>, which are
  local. On a host on New York time, at noon UTC of 15 January 2024 (7 o'clock of that
  day there), the lunch of 2024-01-01 is taken for one of December 2023: with a ceiling
  of 100 the overview shows 0 spent, 100 remaining and 0 percent. On a host on UTC the
  same ledger gives 50 spent, 50 remaining and 50 percent.
\<close>

theorem overview_omits_first_of_month:
  "date new_year_lunch = ''2024-01-01'' \<and> category new_year_lunch = Some ''Food & Dining''
   \<and> amount new_year_lunch = Fin 50
   \<and> getMonth tz_New_York [Some noon_2024_01_15] 0 = Some 0
   \<and> getFullYear tz_New_York [Some noon_2024_01_15] 0 = Some 2024
   \<and> budget_items tz_New_York noon_2024_01_15 [(''Food & Dining'', Fin 100)] [new_year_lunch]
     = [\<lparr>item_category = ''Food & Dining'', budgetAmount = Fin 100, spent = Fin 0,
         remaining = Fin 100, percentage = Fin 0, statusClass = [], budget_alert = False\<rparr>]
   \<and> budget_items tz_UTC noon_2024_01_15 [(''Food & Dining'', Fin 100)] [new_year_lunch]
     = [\<lparr>item_category = ''Food & Dining'', budgetAmount = Fin 100, spent = Fin 50,
         remaining = Fin 50, percentage = Fin 50, statusClass = [], budget_alert = False\<rparr>]"
  using overview_new_year_New_York overview_new_year_UTC now_New_York
  by (simp add: new_year_lunch_fields)


text \<open>
  C7. A ceiling of 0 is not reported as danger at 100% for every value of spent: the
  code divides without a test, and with nothing spent \<open>0 / 0\<close> is NaN, which fails both
  comparisons. The item then has the percentage NaN and the empty class.
\<close>

theorem zero_ceiling_counterexample:
  "budget_items tz_UTC noon_2024_01_15 [(''Food & Dining'', Fin 0)] []
     = [\<lparr>item_category = ''Food & Dining'', budgetAmount = Fin 0, spent = Fin 0,
         remaining = Fin 0, percentage = NaN, statusClass = [], budget_alert = False\<rparr>]"
  by (simp add: budget_items_map budget_progress_def js_sub_def Let_def)

text \<open>
  C7, amended. With a ceiling of exactly 0 and finite amounts no exception is raised, and
  the item is reported as danger with the percentage 100 when the amount spent is
  positive; when nothing is spent the percentage is NaN and the class is the empty one
  (as it is, with the percentage \<open>-Infinity\<close>, for a negative total).
\<close>

theorem zero_ceiling_item:
  assumes "\<forall>e\<in>set es. \<exists>a. amount e = Fin a"
    and "i < length bs" and "bs ! i = (c, Fin 0)"
  shows "(let S = month_total tz now es c;
             item = budget_items tz now bs es ! i
         in item_category item = c \<and> spent item = Fin S
          \<and> percentage item = (if 0 < S then Fin 100 else if S = 0 then NaN else NegInf)
          \<and> statusClass item = (if 0 < S then ''danger'' else [])
          \<and> budget_alert item = (0 < S))"
  unfolding Let_def budget_item_zero[OF assms]
  by simp

theorem zero_ceiling_item_witness:
  "percentage (budget_items tz_UTC noon_2024_01_15 [(''Food & Dining'', Fin 0)] [lunch 50] ! 0)
     = Fin 100
   \<and> statusClass (budget_items tz_UTC noon_2024_01_15 [(''Food & Dining'', Fin 0)] [lunch 50] ! 0)
     = ''danger''
   \<and> spent (budget_items tz_UTC noon_2024_01_15 [(''Food & Dining'', Fin 0)] [lunch 50] ! 0)
     = Fin 50"
proof -
  have f: "\<forall>e\<in>set [lunch 50]. \<exists>x. amount e = Fin x" by (simp add: lunch_def)
  have i: "0 < length [(''Food & Dining'', Fin 0)]" by simp
  have b: "[(''Food & Dining'', Fin 0)] ! 0 = (''Food & Dining'', Fin 0)" by simp
  note t = zero_ceiling_item[OF f i b, where tz = tz_UTC and now = noon_2024_01_15,
      unfolded Let_def total_lunch]
  show ?thesis using t by simp
qed

section \<open>Legacy data\<close>

lemma migrated_fields:
  "category (migrated e) = Some ''Other''"
  "subcategory (migrated e) = Some ''Miscellaneous''"
  "paymentType (migrated e)
     = Some (case type' e of None \<Rightarrow> ''Other'' | Some t \<Rightarrow> if t \<noteq> [] then t else ''Other'')"
  "name (migrated e) = name e" "date (migrated e) = date e"
  "amount (migrated e) = amount e" "id' (migrated e) = id' e"
  "recurring (migrated e) = False"
  by (simp_all add: migrated_def)

lemma not_due_not_recurring: "\<not> recurring e \<Longrightarrow> \<not> due today e"
  by (simp add: due_def)

lemma initializePage_nothing_recurring:
  assumes "\<forall>e\<in>set es. \<not> recurring e"
  shows "initializePage tz p now \<lparr>expenses = es, budgets = bs, effects = []\<rparr>
     = (None, \<lparr>expenses = es, budgets = bs,
               effects = [SetItem_expenses es, ShowExpenses es,
                          BudgetOverview (budget_items tz now bs es)]\<rparr>)"
proof -
  have "migrateRecurring tz p now \<lparr>expenses = es, budgets = bs, effects = []\<rparr>
      = (None, \<lparr>expenses = es, budgets = bs, effects = []\<rparr>
           \<lparr>effects := effects \<lparr>expenses = es, budgets = bs, effects = []\<rparr>
              @ [SetItem_expenses (expenses \<lparr>expenses = es, budgets = bs, effects = []\<rparr>)]\<rparr>)"
    by (rule sweep_nothing_due) (use assms in \<open>simp add: not_due_not_recurring\<close>)
  then show ?thesis
    by (simp add: initializePage_def showExpenses_def updateBudgetOverview_def)
qed

lemma page_load_legacy:
  assumes "es \<noteq> []" "\<forall>e\<in>set es. legacy e"
  shows "page_load tz p now es bs
     = (None, \<lparr>expenses = es, budgets = bs,
               effects = [SetItem_expenses es, ShowExpenses es,
                          BudgetOverview (budget_items tz now bs es),
                          SetItem_expenses (map migrated es), Reload]\<rparr>)"
proof -
  have r: "\<forall>e\<in>set es. \<not> recurring e" using assms(2) by (simp add: legacy_def)
  have "es ! 0 \<in> set es" using assms(1) by simp
  then have c: "category (es ! 0) = None" using assms(2) by (simp add: legacy_def)
  show ?thesis
    using assms(1) c
    by (simp add: page_load_def initializePage_nothing_recurring[OF r] migrateOldData_def)
qed

lemma page_load_migrated:
  assumes "es \<noteq> []"
  shows "page_load tz p now (map migrated es) bs
     = (None, \<lparr>expenses = map migrated es, budgets = bs,
               effects = [SetItem_expenses (map migrated es), ShowExpenses (map migrated es),
                          BudgetOverview (budget_items tz now bs (map migrated es))]\<rparr>)"
proof -
  have r: "\<forall>e\<in>set (map migrated es). \<not> recurring e" by (simp add: migrated_fields)
  have c: "category (map migrated es ! 0) \<noteq> None"
    using assms by (cases es) (simp_all add: migrated_fields)
  show ?thesis
    using c
    by (simp add: page_load_def initializePage_nothing_recurring[OF r] migrateOldData_def)
qed

lemma old_lunch_fields:
  "date old_lunch = ''2024-01-10''" "category old_lunch = None" "amount old_lunch = Fin 8"
  "recurring old_lunch = False"
  by (simp_all add: old_lunch_def)

lemma in_month_old_lunch: "in_current_month tz_UTC noon_2024_01_15 old_lunch"
  by (simp add: in_current_month_def new_Date_def getMonth_def getFullYear_def old_lunch_fields
      parse_0110 LocalTime_def tz_UTC_def fields_0110 fields_noon)

lemma overview_old_lunch:
  "budget_items tz_UTC noon_2024_01_15 [(''Other'', Fin 100)] [old_lunch]
     = [\<lparr>item_category = ''Other'', budgetAmount = Fin 100, spent = Fin 0,
         remaining = Fin 100, percentage = Fin 0, statusClass = [], budget_alert = False\<rparr>]"
proof -
  have f: "\<forall>e\<in>set [old_lunch]. \<exists>a. amount e = Fin a" by (simp add: old_lunch_fields)
  have t: "month_total tz_UTC noon_2024_01_15 [old_lunch] ''Other'' = 0"
    by (simp add: month_total_def old_lunch_fields property_key_def)
  have l: "length (budget_items tz_UTC noon_2024_01_15 [(''Other'', Fin 100)] [old_lunch]) = 1"
    by (simp add: budget_items_map)
  have "budget_items tz_UTC noon_2024_01_15 [(''Other'', Fin 100)] [old_lunch] ! 0
     = \<lparr>item_category = ''Other'', budgetAmount = Fin 100, spent = Fin 0,
         remaining = Fin 100, percentage = Fin 0, statusClass = [], budget_alert = False\<rparr>"
    using budget_item_finite[OF f, of 0 "[(''Other'', Fin 100)]" "''Other''" 100 tz_UTC noon_2024_01_15]
    by (simp add: t)
  then show ?thesis using l
    by (cases "budget_items tz_UTC noon_2024_01_15 [(''Other'', Fin 100)] [old_lunch]") simp_all
qed

lemma migrated_old_lunch:
  "migrated old_lunch
     = \<lparr>category = Some ''Other'', subcategory = Some ''Miscellaneous'',
        paymentType = Some ''Cash'', type' = None, name = ''Lunch'', date = ''2024-01-10'',
        amount = Fin 8, recurring = False, frequency = None, nextDate = None, id' = 1\<rparr>"
  by (simp add: migrated_def old_lunch_def)

lemma migrated_lunch_fields:
  "date (migrated old_lunch) = ''2024-01-10''" "category (migrated old_lunch) = Some ''Other''"
  "amount (migrated old_lunch) = Fin 8"
  by (simp_all add: migrated_old_lunch)

lemma in_month_migrated_lunch: "in_current_month tz_UTC noon_2024_01_15 (migrated old_lunch)"
  by (simp add: in_current_month_def new_Date_def getMonth_def getFullYear_def
      migrated_lunch_fields parse_0110 LocalTime_def tz_UTC_def fields_0110 fields_noon)

lemma overview_migrated_lunch:
  "budget_items tz_UTC noon_2024_01_15 [(''Other'', Fin 100)] [migrated old_lunch]
     = [\<lparr>item_category = ''Other'', budgetAmount = Fin 100, spent = Fin 8,
         remaining = Fin 92, percentage = Fin 8, statusClass = [], budget_alert = False\<rparr>]"
proof -
  have f: "\<forall>e\<in>set [migrated old_lunch]. \<exists>a. amount e = Fin a"
    by (simp add: migrated_lunch_fields)
  have t: "month_total tz_UTC noon_2024_01_15 [migrated old_lunch] ''Other'' = 8"
    by (simp add: month_total_def migrated_lunch_fields property_key_def
        in_month_migrated_lunch finite_amount_def)
  have l: "length (budget_items tz_UTC noon_2024_01_15 [(''Other'', Fin 100)]
             [migrated old_lunch]) = 1"
    by (simp add: budget_items_map)
  have "budget_items tz_UTC noon_2024_01_15 [(''Other'', Fin 100)] [migrated old_lunch] ! 0
     = \<lparr>item_category = ''Other'', budgetAmount = Fin 100, spent = Fin 8,
         remaining = Fin 92, percentage = Fin 8, statusClass = [], budget_alert = False\<rparr>"
    using budget_item_finite[OF f, of 0 "[(''Other'', Fin 100)]" "''Other''" 100 tz_UTC noon_2024_01_15]
    by (simp add: t)
  then show ?thesis using l
    by (cases "budget_items tz_UTC noon_2024_01_15 [(''Other'', Fin 100)] [migrated old_lunch]")
      simp_all
qed

lemma page_load_old_lunch:
  "page_load tz_UTC ''default'' noon_2024_01_15 [old_lunch] [(''Other'', Fin 100)]
     = (None, \<lparr>expenses = [old_lunch], budgets = [(''Other'', Fin 100)],
         effects = [SetItem_expenses [old_lunch], ShowExpenses [old_lunch],
           BudgetOverview [\<lparr>item_category = ''Other'', budgetAmount = Fin 100, spent = Fin 0,
             remaining = Fin 100, percentage = Fin 0, statusClass = [], budget_alert = False\<rparr>],
           SetItem_expenses [migrated old_lunch], Reload]\<rparr>)"
proof -
  have l: "\<forall>e\<in>set [old_lunch]. legacy e" by (simp add: legacy_def old_lunch_fields)
  show ?thesis
    using page_load_legacy[OF _ l, of tz_UTC "''default''" noon_2024_01_15 "[(''Other'', Fin 100)]"]
    by (simp add: overview_old_lunch)
qed

text \<open>
  C9. The migration does not run before the other logic. On a stored ledger that holds
  one legacy record, the sweep writes the ledger with the record still without a
  category, the table shows that record, and the budget overview counts nothing for
  Other, where it would count the 8 of the record on the migrated ledger; only then is
  the migrated ledger written and the page reloaded.
\<close>

theorem legacy_migration_counterexample:
  "page_load tz_UTC ''default'' noon_2024_01_15 [old_lunch] [(''Other'', Fin 100)]
     = (None, \<lparr>expenses = [old_lunch], budgets = [(''Other'', Fin 100)],
         effects = [SetItem_expenses [old_lunch], ShowExpenses [old_lunch],
           BudgetOverview [\<lparr>item_category = ''Other'', budgetAmount = Fin 100, spent = Fin 0,
             remaining = Fin 100, percentage = Fin 0, statusClass = [], budget_alert = False\<rparr>],
           SetItem_expenses [migrated old_lunch], Reload]\<rparr>)
   \<and> category old_lunch = None \<and> category (migrated old_lunch) = Some ''Other''
   \<and> budget_items tz_UTC noon_2024_01_15 [(''Other'', Fin 100)] [migrated old_lunch]
     = [\<lparr>item_category = ''Other'', budgetAmount = Fin 100, spent = Fin 8,
         remaining = Fin 92, percentage = Fin 8, statusClass = [], budget_alert = False\<rparr>]"
  using page_load_old_lunch overview_migrated_lunch
  by (simp add: old_lunch_fields migrated_fields)

text \<open>
  C9, amended. For a stored ledger that is not empty and holds only legacy records
  (no \<^verbatim>\<open>category\<close> property, not recurring; the amounts are numbers, as in every
  record of this model), the load of the page first runs the sweep, which finds nothing
  due and writes the ledger as it is, then renders the table and the budget overview
  from the unmigrated records, and only then, with the last statement of the script,
  writes the migrated ledger to storage and reloads the page. Each migrated record has
  the category Other, the subcategory Miscellaneous, the payment type of the legacy
  \<^verbatim>\<open>type\<close> field or Other, and the name, date, amount and identifier of the record it
  was made from. The load that follows the reload reads the migrated ledger and migrates
  nothing again.
\<close>

theorem legacy_ledger_migrated_after_rendering:
  assumes "es \<noteq> []" and "\<forall>e\<in>set es. legacy e"
  shows "page_load tz p now es bs
           = (None, \<lparr>expenses = es, budgets = bs,
                effects = [SetItem_expenses es, ShowExpenses es,
                           BudgetOverview (budget_items tz now bs es),
                           SetItem_expenses (map migrated es), Reload]\<rparr>)
     \<and> (\<forall>e\<in>set es. category (migrated e) = Some ''Other''
            \<and> subcategory (migrated e) = Some ''Miscellaneous''
            \<and> paymentType (migrated e)
                = Some (case type' e of None \<Rightarrow> ''Other''
                        | Some t \<Rightarrow> if t \<noteq> [] then t else ''Other'')
            \<and> name (migrated e) = name e \<and> date (migrated e) = date e
            \<and> amount (migrated e) = amount e \<and> id' (migrated e) = id' e)
     \<and> page_load tz p' now' (map migrated es) bs
           = (None, \<lparr>expenses = map migrated es, budgets = bs,
                effects = [SetItem_expenses (map migrated es), ShowExpenses (map migrated es),
                           BudgetOverview (budget_items tz now' bs (map migrated es))]\<rparr>)"
  using page_load_legacy[OF assms] page_load_migrated[OF assms(1)]
  by (simp add: migrated_fields)

theorem legacy_ledger_migrated_after_rendering_witness:
  "page_load tz_UTC ''default'' noon_2024_01_15 [old_lunch] [(''Other'', Fin 100)]
     = (None, \<lparr>expenses = [old_lunch], budgets = [(''Other'', Fin 100)],
         effects = [SetItem_expenses [old_lunch], ShowExpenses [old_lunch],
           BudgetOverview [\<lparr>item_category = ''Other'', budgetAmount = Fin 100, spent = Fin 0,
             remaining = Fin 100, percentage = Fin 0, statusClass = [], budget_alert = False\<rparr>],
           SetItem_expenses
             [\<lparr>category = Some ''Other'', subcategory = Some ''Miscellaneous'',
               paymentType = Some ''Cash'', type' = None, name = ''Lunch'',
               date = ''2024-01-10'', amount = Fin 8, recurring = False, frequency = None,
               nextDate = None, id' = 1\<rparr>],
           Reload]\<rparr>)
   \<and> name (migrated old_lunch) = name old_lunch \<and> id' (migrated old_lunch) = id' old_lunch
   \<and> effects (snd (page_load tz_UTC ''granted'' noon_2024_01_15 [migrated old_lunch]
        [(''Other'', Fin 100)]))
     = [SetItem_expenses [migrated old_lunch], ShowExpenses [migrated old_lunch],
        BudgetOverview [\<lparr>item_category = ''Other'', budgetAmount = Fin 100, spent = Fin 8,
          remaining = Fin 92, percentage = Fin 8, statusClass = [], budget_alert = False\<rparr>]]"
proof -
  have n: "[old_lunch] \<noteq> []" by simp
  have l: "\<forall>e\<in>set [old_lunch]. legacy e" by (simp add: legacy_def old_lunch_fields)
  note t = legacy_ledger_migrated_after_rendering[OF n l, of tz_UTC "''default''"
      noon_2024_01_15 "[(''Other'', Fin 100)]" "''granted''" noon_2024_01_15]
  have 1: "page_load tz_UTC ''default'' noon_2024_01_15 [old_lunch] [(''Other'', Fin 100)]
     = (None, \<lparr>expenses = [old_lunch], budgets = [(''Other'', Fin 100)],
         effects = [SetItem_expenses [old_lunch], ShowExpenses [old_lunch],
           BudgetOverview [\<lparr>item_category = ''Other'', budgetAmount = Fin 100, spent = Fin 0,
             remaining = Fin 100, percentage = Fin 0, statusClass = [], budget_alert = False\<rparr>],
           SetItem_expenses
             [\<lparr>category = Some ''Other'', subcategory = Some ''Miscellaneous'',
               paymentType = Some ''Cash'', type' = None, name = ''Lunch'',
               date = ''2024-01-10'', amount = Fin 8, recurring = False, frequency = None,
               nextDate = None, id' = 1\<rparr>],
           Reload]\<rparr>)"
    using t[THEN conjunct1] by (simp add: overview_old_lunch migrated_old_lunch)
  have 2: "name (migrated old_lunch) = name old_lunch \<and> id' (migrated old_lunch) = id' old_lunch"
    using t[THEN conjunct2, THEN conjunct1] by simp
  have 3: "effects (snd (page_load tz_UTC ''granted'' noon_2024_01_15 [migrated old_lunch]
        [(''Other'', Fin 100)]))
     = [SetItem_expenses [migrated old_lunch], ShowExpenses [migrated old_lunch],
        BudgetOverview [\<lparr>item_category = ''Other'', budgetAmount = Fin 100, spent = Fin 8,
          remaining = Fin 92, percentage = Fin 8, statusClass = [], budget_alert = False\<rparr>]]"
    using t[THEN conjunct2, THEN conjunct2] by (simp add: overview_migrated_lunch)
  show ?thesis using 1 2 3 by blast
qed

end
